theory Spec2Isabelle
  imports Main
begin

section \<open>Python values used by the chunker\<close>

text \<open>
  Python strings are modelled as lists of 8-bit characters (one character per code
  point below 256).  \<open>str.strip()\<close> removes leading and trailing whitespace; the
  whitespace code points below 256 are 9..13, 28..31, 32, 133 and 160.
\<close>

definition isspace :: "char \<Rightarrow> bool" where
  "isspace c = (of_char c \<in> {9, 10, 11, 12, 13, 28, 29, 30, 31, 32, 133, 160 :: nat})"

definition strip :: "string \<Rightarrow> string" where
  "strip s = rev (dropWhile isspace (rev (dropWhile isspace s)))"

text \<open>
  Exceptions.  The library's exceptions are opaque to the chunker (the only handler is
  \<open>except Exception\<close>), so one constructor carries them all.
\<close>

datatype error =
    LibraryError string
  | AttributeError string
  | ZeroDivisionError

section \<open>The element classes of the markdown library\<close>

text \<open>
  Modelled from the spec: the classes \<open>MarkdownTable\<close>, \<open>MarkdownCode\<close>,
  \<open>MarkdownImage\<close> and the prose \<open>Chunk\<close> are imported from the library and are
  not part of the repository.  Section 3 of the specification gives their fields as far as
  the chunker reads them: a table has \<open>content\<close> and \<open>start_index\<close>, a code block
  has \<open>content\<close>, \<open>language\<close> (possibly null) and \<open>start_index\<close>, an image has
  \<open>start_index\<close> only, and a prose segment has \<open>text\<close> and \<open>start_index\<close>.
\<close>

datatype MarkdownTable = MarkdownTable (table_content: string) (table_start_index: int)

datatype MarkdownCode =
  MarkdownCode (code_content: string) (code_language: "string option") (code_start_index: int)

datatype MarkdownImage = MarkdownImage (image_start_index: int)

datatype Chunk = Chunk (prose_text: string) (prose_start_index: int)

record MarkdownDocument =
  tables :: "MarkdownTable list"
  code :: "MarkdownCode list"
  images :: "MarkdownImage list"
  chunks :: "Chunk list"

text \<open>
  The list \<open>items\<close> of \<open>parse_markdown\<close> holds objects of all four classes; the
  \<open>isinstance\<close> tests of the loop are the case distinction on this type.
\<close>

datatype item =
    Table MarkdownTable
  | Code MarkdownCode
  | Image MarkdownImage
  | Prose Chunk

fun start_index :: "item \<Rightarrow> int" where
  "start_index (Table t) = table_start_index t"
| "start_index (Code c) = code_start_index c"
| "start_index (Image i) = image_start_index i"
| "start_index (Prose p) = prose_start_index p"

section \<open>The external library as a parameter\<close>

text \<open>
  The markdown parser and the three splitters belong to an external library.  They are
  taken as a parameter: a record of the functions the chunker calls.  The handle types
  \<open>'t\<close> (table splitter), \<open>'c\<close> (code splitter), \<open>'p\<close> (prose splitter) and
  \<open>'r\<close> (rule sets) are opaque.  Every call may raise.  A splitter's \<open>chunk\<close> is a
  function of the handle and the content: a handle carries its construction-time
  configuration and nothing else, as section 5 of the specification requires.  Of the
  pieces a splitter returns the chunker reads only the text, so a piece is a string.

  \<^item> \<open>MarkdownChef_parse\<close> is the inherited \<open>parse\<close>; its first argument is the
    \<open>extract_images\<close> method of the object it is called on.
  \<^item> \<open>RecursiveRules\<close> is the instance \<open>RecursiveRules()\<close>,
    \<open>RecursiveRules_class\<close> the class object itself (which the fallback passes),
    \<open>from_recipe\<close> the locale-specific rule set of a language.
  \<^item> \<open>cc_language\<close> reads the attribute \<open>language\<close> of a code splitter.
\<close>

record ('t, 'c, 'p, 'r) chonkie =
  MarkdownChef_parse :: "(string \<Rightarrow> MarkdownImage list) \<Rightarrow> string \<Rightarrow> error + MarkdownDocument"
  RecursiveRules :: "'r"
  RecursiveRules_class :: "'r"
  from_recipe :: "string \<Rightarrow> error + 'r"
  TableChunker :: "int \<Rightarrow> error + 't"
  table_chunk :: "'t \<Rightarrow> string \<Rightarrow> error + string list"
  CodeChunker :: "string \<Rightarrow> int \<Rightarrow> error + 'c"
  cc_language :: "'c \<Rightarrow> string"
  code_chunk :: "'c \<Rightarrow> string \<Rightarrow> error + string list"
  RecursiveChunker :: "int \<Rightarrow> 'r \<Rightarrow> error + 'p"
  recursive_chunk :: "'p \<Rightarrow> string \<Rightarrow> error + string list"

section \<open>The markdown parser object\<close>

text \<open>\<open>CustomMarkdownChef.extract_images\<close>: image extraction is disabled.\<close>

definition extract_images :: "string \<Rightarrow> MarkdownImage list" where
  "extract_images markdown = []"

text \<open>\<open>chef.parse\<close> on the module's \<open>CustomMarkdownChef\<close> instance.\<close>

definition chef_parse :: "('t, 'c, 'p, 'r) chonkie \<Rightarrow> string \<Rightarrow> error + MarkdownDocument" where
  "chef_parse lib markdown = MarkdownChef_parse lib extract_images markdown"

definition langs :: "string list" where
  "langs = [''af'', ''am'', ''ar'', ''bg'', ''bn'', ''ca'', ''cs'', ''cy'', ''da'', ''de'',
    ''en'', ''es'', ''et'', ''fa'', ''fi'', ''fr'', ''ga'', ''gl'', ''he'', ''hi'', ''hr'',
    ''hu'', ''id'', ''is'', ''it'', ''jp'', ''kr'', ''lt'', ''lv'', ''mk'', ''ms'', ''mt'',
    ''ne'', ''nl'', ''no'', ''pl'', ''pt'', ''pt-BR'', ''ro'', ''ru'', ''sk'', ''sl'', ''sr'',
    ''sv'', ''sw'', ''ta'', ''te'', ''th'', ''tl'', ''tr'', ''uk'', ''ur'', ''vi'', ''zh'',
    ''zu'']"

record ChunkOptions =
  chunk_size :: int
  language_code :: "string option"

section \<open>parse_markdown\<close>

text \<open>The three lazily constructed splitters, local to one call of \<open>parse_markdown\<close>.\<close>

record ('t, 'c, 'p) chunkers =
  table_chunker :: "'t option"
  code_chunker :: "'c option"
  recursive_chunker :: "'p option"

definition no_chunkers :: "('t, 'c, 'p) chunkers" where
  "no_chunkers = \<lparr>table_chunker = None, code_chunker = None, recursive_chunker = None\<rparr>"

text \<open>
  The \<open>rules\<close> expression at the head of \<open>parse_markdown\<close>.
\<close>

definition select_rules :: "('t, 'c, 'p, 'r) chonkie \<Rightarrow> string option \<Rightarrow> error + 'r" where
  "select_rules lib language =
     (case language of
        None \<Rightarrow> Inr (RecursiveRules lib)
      | Some l \<Rightarrow> if l \<in> set langs then from_recipe lib l else Inr (RecursiveRules lib))"

text \<open>
  The body of the \<open>try\<close> block of the code branch: construct a code splitter when
  there is none or when the block declares a language other than the current splitter's,
  then split.  The result is the pieces with the updated splitters, or the exception
  raised together with the splitters as they are when it is raised (the assignment to
  \<open>code_chunker\<close> has happened when only \<open>chunk\<close> raises).
\<close>

definition construct_and_chunk ::
  "('t, 'c, 'p, 'r) chonkie \<Rightarrow> int \<Rightarrow> ('t, 'c, 'p) chunkers \<Rightarrow> MarkdownCode
    \<Rightarrow> (error \<times> ('t, 'c, 'p) chunkers) + (string list \<times> ('t, 'c, 'p) chunkers)" where
  "construct_and_chunk lib csize st c =
     (case CodeChunker lib (case code_language c of None \<Rightarrow> ''auto'' | Some l \<Rightarrow> l) csize of
        Inl e \<Rightarrow> Inl (e, st)
      | Inr cc \<Rightarrow>
          (case code_chunk lib cc (code_content c) of
             Inl e \<Rightarrow> Inl (e, st\<lparr>code_chunker := Some cc\<rparr>)
           | Inr ps \<Rightarrow> Inr (ps, st\<lparr>code_chunker := Some cc\<rparr>)))"

definition reuse_and_chunk ::
  "('t, 'c, 'p, 'r) chonkie \<Rightarrow> ('t, 'c, 'p) chunkers \<Rightarrow> 'c \<Rightarrow> MarkdownCode
    \<Rightarrow> (error \<times> ('t, 'c, 'p) chunkers) + (string list \<times> ('t, 'c, 'p) chunkers)" where
  "reuse_and_chunk lib st cc c =
     (case code_chunk lib cc (code_content c) of
        Inl e \<Rightarrow> Inl (e, st)
      | Inr ps \<Rightarrow> Inr (ps, st))"

definition try_code ::
  "('t, 'c, 'p, 'r) chonkie \<Rightarrow> int \<Rightarrow> ('t, 'c, 'p) chunkers \<Rightarrow> MarkdownCode
    \<Rightarrow> (error \<times> ('t, 'c, 'p) chunkers) + (string list \<times> ('t, 'c, 'p) chunkers)" where
  "try_code lib csize st c =
     (case code_chunker st of
        None \<Rightarrow> construct_and_chunk lib csize st c
      | Some cc \<Rightarrow>
          (case code_language c of
             None \<Rightarrow> reuse_and_chunk lib st cc c
           | Some l \<Rightarrow>
               if cc_language lib cc \<noteq> l then construct_and_chunk lib csize st c
               else reuse_and_chunk lib st cc c))"

text \<open>
  The lazy construction of the prose splitter, which both the \<open>except\<close> handler
  and the \<open>else\<close> branch perform: the splitter of this call when there is one,
  otherwise a new one with the given rules.
\<close>

definition prose_chunker ::
  "('t, 'c, 'p, 'r) chonkie \<Rightarrow> int \<Rightarrow> 'r \<Rightarrow> ('t, 'c, 'p) chunkers \<Rightarrow> error + 'p" where
  "prose_chunker lib csize r st =
     (case recursive_chunker st of
        None \<Rightarrow> RecursiveChunker lib csize r
      | Some rc \<Rightarrow> Inr rc)"

text \<open>
  The \<open>except\<close> handler: split the content with the prose splitter of this call,
  constructing it with the class object \<open>RecursiveRules\<close> as its rules when there is
  none yet.
\<close>

definition fallback ::
  "('t, 'c, 'p, 'r) chonkie \<Rightarrow> int \<Rightarrow> ('t, 'c, 'p) chunkers \<Rightarrow> string
    \<Rightarrow> error + (string list \<times> ('t, 'c, 'p) chunkers)" where
  "fallback lib csize st content =
     (case prose_chunker lib csize (RecursiveRules_class lib) st of
        Inl e \<Rightarrow> Inl e
      | Inr rc \<Rightarrow>
          (case recursive_chunk lib rc content of
             Inl e \<Rightarrow> Inl e
           | Inr ps \<Rightarrow> Inr (ps, st\<lparr>recursive_chunker := Some rc\<rparr>)))"

text \<open>
  The \<open>else\<close> branch: the prose splitter of this call, constructed with \<open>rules\<close>
  when there is none yet, applied to \<open>item.text\<close>.  The splitter is constructed before
  \<open>item.text\<close> is read; an image has no attribute \<open>text\<close>.
\<close>

definition chunk_prose ::
  "('t, 'c, 'p, 'r) chonkie \<Rightarrow> int \<Rightarrow> 'r \<Rightarrow> ('t, 'c, 'p) chunkers \<Rightarrow> error + string
    \<Rightarrow> error + (string list \<times> ('t, 'c, 'p) chunkers)" where
  "chunk_prose lib csize rules st item_text =
     (case prose_chunker lib csize rules st of
        Inl e \<Rightarrow> Inl e
      | Inr rc \<Rightarrow>
          (case item_text of
             Inl e \<Rightarrow> Inl e
           | Inr s \<Rightarrow>
               (case recursive_chunk lib rc s of
                  Inl e \<Rightarrow> Inl e
                | Inr ps \<Rightarrow> Inr (ps, st\<lparr>recursive_chunker := Some rc\<rparr>))))"

text \<open>The dispatch on the class of the item: the pieces and the updated splitters.\<close>

fun chunk_item ::
  "('t, 'c, 'p, 'r) chonkie \<Rightarrow> int \<Rightarrow> 'r \<Rightarrow> ('t, 'c, 'p) chunkers \<Rightarrow> item
    \<Rightarrow> error + (string list \<times> ('t, 'c, 'p) chunkers)" where
  "chunk_item lib csize rules st (Table t) =
     (case (case table_chunker st of None \<Rightarrow> TableChunker lib csize | Some tc \<Rightarrow> Inr tc) of
        Inl e \<Rightarrow> Inl e
      | Inr tc \<Rightarrow>
          (case table_chunk lib tc (table_content t) of
             Inl e \<Rightarrow> Inl e
           | Inr ps \<Rightarrow> Inr (ps, st\<lparr>table_chunker := Some tc\<rparr>)))"
| "chunk_item lib csize rules st (Code c) =
     (case try_code lib csize st c of
        Inr r \<Rightarrow> Inr r
      | Inl (e, st') \<Rightarrow> fallback lib csize st' (code_content c))"
| "chunk_item lib csize rules st (Image i) =
     chunk_prose lib csize rules st (Inl (AttributeError ''text''))"
| "chunk_item lib csize rules st (Prose p) =
     chunk_prose lib csize rules st (Inr (prose_text p))"

text \<open>The chunk dictionaries \<open>parse_markdown\<close> returns.\<close>

record parsed_chunk =
  parsed_text :: string
  parsed_sequence_number :: int

text \<open>The inner loop \<open>for chunk in chunks\<close>: append and count.\<close>

fun emit :: "string list \<Rightarrow> parsed_chunk list \<Rightarrow> int \<Rightarrow> parsed_chunk list \<times> int" where
  "emit [] final_chunks sequence_number = (final_chunks, sequence_number)"
| "emit (p # ps) final_chunks sequence_number =
     emit ps
       (final_chunks @ [\<lparr>parsed_text = strip p, parsed_sequence_number = sequence_number\<rparr>])
       (sequence_number + 1)"

text \<open>The loop \<open>for item in items\<close>.\<close>

fun item_loop ::
  "('t, 'c, 'p, 'r) chonkie \<Rightarrow> int \<Rightarrow> 'r \<Rightarrow> ('t, 'c, 'p) chunkers \<Rightarrow> parsed_chunk list
    \<Rightarrow> int \<Rightarrow> item list \<Rightarrow> error + parsed_chunk list" where
  "item_loop lib csize rules st final_chunks sequence_number [] = Inr final_chunks"
| "item_loop lib csize rules st final_chunks sequence_number (x # xs) =
     (case chunk_item lib csize rules st x of
        Inl e \<Rightarrow> Inl e
      | Inr (ps, st') \<Rightarrow>
          (case emit ps final_chunks sequence_number of
             (final_chunks', sequence_number') \<Rightarrow>
               item_loop lib csize rules st' final_chunks' sequence_number' xs))"

text \<open>
  The four lists concatenated in the order tables, code, images, prose, then sorted by
  \<open>start_index\<close>.  Python's \<open>list.sort\<close> is stable; \<open>sort_key\<close> is the stable
  insertion sort, and a stable sort's result is determined by its input.
\<close>

definition items_of :: "MarkdownDocument \<Rightarrow> item list" where
  "items_of document =
     sort_key start_index
       (map Table (tables document) @ map Code (code document)
        @ map Image (images document) @ map Prose (chunks document))"

definition parse_markdown ::
  "('t, 'c, 'p, 'r) chonkie \<Rightarrow> string \<Rightarrow> ChunkOptions \<Rightarrow> error + parsed_chunk list" where
  "parse_markdown lib markdown chunk_options =
     (case select_rules lib (language_code chunk_options) of
        Inl e \<Rightarrow> Inl e
      | Inr rules \<Rightarrow>
          (case chef_parse lib (markdown @ [CHR 0x0A]) of
             Inl e \<Rightarrow> Inl e
           | Inr document \<Rightarrow>
               item_loop lib (chunk_size chunk_options) rules no_chunkers [] 0
                 (items_of document)))"

section \<open>chunk_documents\<close>

text \<open>
  A document is a dictionary with the key \<open>text\<close> (a string; every caller
  supplies it) and, optionally, the key \<open>page\<close>.  The field \<open>page\<close> is
  \<open>None\<close> both when the key is absent and when its value is \<open>None\<close>: the source
  treats the two alike (\<open>doc["page"] if "page" in doc else None\<close>, then
  \<open>if page_number is not None\<close>).
\<close>

record document =
  doc_text :: string
  page :: "int option"

text \<open>
  The chunk dictionary built by \<open>chunk_documents\<close>: \<open>id\<close>, \<open>text\<close> and the
  metadata \<open>sequence_number\<close> and, when the document has a page, \<open>page_number\<close>.
\<close>

record chunk_dict =
  chunk_id :: string
  chunk_text :: string
  sequence_number :: int
  page_number :: "int option"

text \<open>
  An element of \<open>batches\<close> is a chunk dictionary (batching disabled) or a list of
  them.  \<open>len\<close> of a list counts its elements; \<open>len\<close> of a chunk dictionary
  counts its three keys \<open>id\<close>, \<open>text\<close> and \<open>metadata\<close>, and a dictionary has
  no \<open>append\<close>.  Within one call the batch size is fixed, so the two kinds never mix;
  the loop body below is defined on every state all the same.
\<close>

datatype batch_entry = Single chunk_dict | Batch "chunk_dict list"

fun entry_len :: "batch_entry \<Rightarrow> int" where
  "entry_len (Single c) = 3"
| "entry_len (Batch g) = int (length g)"

text \<open>
  The local variables of \<open>chunk_documents\<close>.  \<open>uuid.uuid4()\<close> draws from the
  operating system's randomness: a run is given the sequence of values it will draw,
  \<open>uuid4 k\<close> being the result of call number \<open>k\<close>, and \<open>uuid_calls\<close> counts the
  calls made.
\<close>

record locals =
  batches :: "batch_entry list"
  total_characters :: int
  total_chunks :: int
  total_batches :: int
  uuid_calls :: nat

definition initial :: locals where
  "initial = \<lparr>batches = [], total_characters = 0, total_chunks = 0, total_batches = 0,
     uuid_calls = 0\<rparr>"

text \<open>The body of the loop \<open>for chunk in chunks\<close>.\<close>

definition new_chunk_dict :: "(nat \<Rightarrow> string) \<Rightarrow> int option \<Rightarrow> locals \<Rightarrow> parsed_chunk \<Rightarrow> chunk_dict" where
  "new_chunk_dict uuid4 page_no st chunk =
     \<lparr>chunk_id = uuid4 (uuid_calls st), chunk_text = parsed_text chunk,
      sequence_number = total_chunks st, page_number = page_no\<rparr>"

definition append_chunk ::
  "(nat \<Rightarrow> string) \<Rightarrow> int option \<Rightarrow> int option \<Rightarrow> locals \<Rightarrow> parsed_chunk \<Rightarrow> error + locals" where
  "append_chunk uuid4 batch_size page_no st chunk =
     (let chunk_dict = new_chunk_dict uuid4 page_no st chunk;
          st1 = st\<lparr>uuid_calls := Suc (uuid_calls st),
                   total_chunks := total_chunks st + 1,
                   total_characters := total_characters st + int (length (chunk_text chunk_dict))\<rparr>
      in
      case batch_size of
        None \<Rightarrow> Inr (st1\<lparr>batches := batches st1 @ [Single chunk_dict]\<rparr>)
      | Some b \<Rightarrow>
          if batches st1 = [] then
            Inr (st1\<lparr>batches := batches st1 @ [Batch [chunk_dict]],
                     total_batches := total_batches st1 + 1\<rparr>)
          else if b = 0 then Inl ZeroDivisionError
          else if entry_len (last (batches st1)) mod b = 0 then
            Inr (st1\<lparr>batches := batches st1 @ [Batch [chunk_dict]],
                     total_batches := total_batches st1 + 1\<rparr>)
          else
            (case last (batches st1) of
               Single c \<Rightarrow> Inl (AttributeError ''append'')
             | Batch g \<Rightarrow>
                 Inr (st1\<lparr>batches := butlast (batches st1) @ [Batch (g @ [chunk_dict])]\<rparr>)))"

fun chunk_loop ::
  "(nat \<Rightarrow> string) \<Rightarrow> int option \<Rightarrow> int option \<Rightarrow> locals \<Rightarrow> parsed_chunk list \<Rightarrow> error + locals" where
  "chunk_loop uuid4 batch_size page_no st [] = Inr st"
| "chunk_loop uuid4 batch_size page_no st (chunk # rest) =
     (case append_chunk uuid4 batch_size page_no st chunk of
        Inl e \<Rightarrow> Inl e
      | Inr st' \<Rightarrow> chunk_loop uuid4 batch_size page_no st' rest)"

text \<open>The loop \<open>for doc in documents\<close>.\<close>

fun doc_loop ::
  "('t, 'c, 'p, 'r) chonkie \<Rightarrow> (nat \<Rightarrow> string) \<Rightarrow> int option \<Rightarrow> ChunkOptions \<Rightarrow> locals
    \<Rightarrow> document list \<Rightarrow> error + locals" where
  "doc_loop lib uuid4 batch_size chunk_options st [] = Inr st"
| "doc_loop lib uuid4 batch_size chunk_options st (doc # docs) =
     (case parse_markdown lib (doc_text doc) chunk_options of
        Inl e \<Rightarrow> Inl e
      | Inr parsed \<Rightarrow>
          (case chunk_loop uuid4 batch_size (page doc) st parsed of
             Inl e \<Rightarrow> Inl e
           | Inr st' \<Rightarrow> doc_loop lib uuid4 batch_size chunk_options st' docs))"

definition chunk_documents ::
  "('t, 'c, 'p, 'r) chonkie \<Rightarrow> (nat \<Rightarrow> string) \<Rightarrow> document list \<Rightarrow> int option \<Rightarrow> ChunkOptions
    \<Rightarrow> error + (batch_entry list \<times> int \<times> int \<times> int)" where
  "chunk_documents lib uuid4 documents batch_size chunk_options =
     (case doc_loop lib uuid4 batch_size chunk_options initial documents of
        Inl e \<Rightarrow> Inl e
      | Inr st \<Rightarrow> Inr (batches st, total_characters st, total_chunks st, total_batches st))"

section \<open>Reading the results\<close>

text \<open>The chunks of \<open>batches\<close> in the order they were appended.\<close>

fun entry_chunks :: "batch_entry \<Rightarrow> chunk_dict list" where
  "entry_chunks (Single c) = [c]"
| "entry_chunks (Batch g) = g"

definition flatten :: "batch_entry list \<Rightarrow> chunk_dict list" where
  "flatten bs = concat (map entry_chunks bs)"

section \<open>Closed forms used to state the properties\<close>

text \<open>
  The pieces each item contributed: \<open>item_trace\<close> runs the dispatch of
  \<open>item_loop\<close> over the items with the same threading of the splitters and returns,
  for every item in turn, the item with the pieces its splitter returned.
\<close>

fun item_trace ::
  "('t, 'c, 'p, 'r) chonkie \<Rightarrow> int \<Rightarrow> 'r \<Rightarrow> ('t, 'c, 'p) chunkers \<Rightarrow> item list
    \<Rightarrow> error + (item \<times> string list) list" where
  "item_trace lib csize rules st [] = Inr []"
| "item_trace lib csize rules st (x # xs) =
     (case chunk_item lib csize rules st x of
        Inl e \<Rightarrow> Inl e
      | Inr (ps, st') \<Rightarrow>
          (case item_trace lib csize rules st' xs of
             Inl e \<Rightarrow> Inl e
           | Inr tr \<Rightarrow> Inr ((x, ps) # tr)))"

definition markdown_trace ::
  "('t, 'c, 'p, 'r) chonkie \<Rightarrow> string \<Rightarrow> ChunkOptions \<Rightarrow> error + (item \<times> string list) list" where
  "markdown_trace lib markdown chunk_options =
     (case select_rules lib (language_code chunk_options) of
        Inl e \<Rightarrow> Inl e
      | Inr rules \<Rightarrow>
          (case chef_parse lib (markdown @ [CHR 0x0A]) of
             Inl e \<Rightarrow> Inl e
           | Inr document \<Rightarrow>
               item_trace lib (chunk_size chunk_options) rules no_chunkers (items_of document)))"

text \<open>All pieces of a trace, item after item, piece after piece.\<close>

definition trace_pieces :: "(item \<times> string list) list \<Rightarrow> string list" where
  "trace_pieces tr = concat (map snd tr)"

text \<open>Pieces stripped and numbered consecutively from \<open>n\<close>.\<close>

fun number_from :: "int \<Rightarrow> string list \<Rightarrow> parsed_chunk list" where
  "number_from n [] = []"
| "number_from n (p # ps) =
     \<lparr>parsed_text = strip p, parsed_sequence_number = n\<rparr> # number_from (n + 1) ps"

text \<open>
  Chunk dictionaries for a list of parsed chunks, each paired with the page of its
  document: identifiers drawn from call number \<open>k\<close> on, sequence numbers from \<open>n\<close> on.
\<close>

fun dicts_from :: "(nat \<Rightarrow> string) \<Rightarrow> nat \<Rightarrow> int \<Rightarrow> (int option \<times> parsed_chunk) list \<Rightarrow> chunk_dict list" where
  "dicts_from uuid4 k n [] = []"
| "dicts_from uuid4 k n (x # xs) =
     \<lparr>chunk_id = uuid4 k, chunk_text = parsed_text (snd x), sequence_number = n,
      page_number = fst x\<rparr> # dicts_from uuid4 (Suc k) (n + 1) xs"

text \<open>The parsed chunks of a list of documents, each paired with its document's page.\<close>

definition paged :: "document list \<Rightarrow> parsed_chunk list list \<Rightarrow> (int option \<times> parsed_chunk) list" where
  "paged docs pss = concat (map (\<lambda>(d, ps). map (\<lambda>c. (page d, c)) ps) (zip docs pss))"

text \<open>
  The specification's grouping: a list cut into groups of exactly \<open>n\<close> elements,
  except possibly the last group.
\<close>

function groups_of :: "nat \<Rightarrow> 'a list \<Rightarrow> 'a list list" where
  "groups_of n xs = (if n = 0 \<or> xs = [] then [] else take n xs # groups_of n (drop n xs))"
  by pat_completeness auto
termination
  by (relation "measure (\<lambda>(n, xs). length xs)") auto

declare groups_of.simps [simp del]

text \<open>
  The invariant of \<open>batches\<close> under a positive batch size \<open>b\<close>: every element is a
  group, every group but the last holds exactly \<open>b\<close> chunks, and the last (the open
  group) holds between 1 and \<open>b\<close>.
\<close>

fun is_group :: "batch_entry \<Rightarrow> bool" where
  "is_group (Single c) = False"
| "is_group (Batch g) = True"

definition well_grouped :: "int \<Rightarrow> batch_entry list \<Rightarrow> bool" where
  "well_grouped b bs =
     (list_all is_group bs \<and> list_all (\<lambda>e. entry_len e = b) (butlast bs)
      \<and> (bs = [] \<or> (1 \<le> entry_len (last bs) \<and> entry_len (last bs) \<le> b)))"

text \<open>A result with every identifier blanked.\<close>

definition erase_id :: "chunk_dict \<Rightarrow> chunk_dict" where
  "erase_id c = c\<lparr>chunk_id := []\<rparr>"

fun erase_entry :: "batch_entry \<Rightarrow> batch_entry" where
  "erase_entry (Single c) = Single (erase_id c)"
| "erase_entry (Batch g) = Batch (map erase_id g)"

definition erase_ids ::
  "error + (batch_entry list \<times> int \<times> int \<times> int) \<Rightarrow> error + (batch_entry list \<times> int \<times> int \<times> int)" where
  "erase_ids r =
     (case r of
        Inl e \<Rightarrow> Inl e
      | Inr (bs, tchars, tchunks, tbatches) \<Rightarrow> Inr (map erase_entry bs, tchars, tchunks, tbatches))"

text \<open>
  The inherited \<open>parse\<close> obtains the image list of the document it returns from the
  \<open>extract_images\<close> method of the parser object.
\<close>

definition images_from_method :: "('t, 'c, 'p, 'r) chonkie \<Rightarrow> bool" where
  "images_from_method lib =
     (\<forall>f markdown d. MarkdownChef_parse lib f markdown = Inr d \<longrightarrow> images d = f markdown)"

fun is_image :: "item \<Rightarrow> bool" where
  "is_image (Image i) = True"
| "is_image x = False"

text \<open>Two states of \<open>chunk_documents\<close> that differ in the identifiers only.\<close>

definition same_but_ids :: "locals \<Rightarrow> locals \<Rightarrow> bool" where
  "same_but_ids s t =
     (map erase_entry (batches s) = map erase_entry (batches t)
      \<and> total_characters s = total_characters t \<and> total_chunks s = total_chunks t
      \<and> total_batches s = total_batches t)"

section \<open>A stand-in library for evaluating the model\<close>

text \<open>
  To run the model on concrete inputs the library parameter needs a value.  The stand-in
  below is a small deterministic library that behaves as the real one does on the paths
  the examples take.
  \<^item> Its parser is a given function from the markdown text to a document, with the image
    list replaced by what the \<open>extract_images\<close> method returns.
  \<^item> Every splitter constructor raises \<open>ValueError\<close> on a chunk size that is not
    positive.  The constructor of the prose splitter also raises \<open>ValueError\<close> when
    its \<open>rules\<close> argument is not an instance of \<open>RecursiveRules\<close>; the class object
    itself is not an instance.
  \<^item> Its table and code splitters return the content as one piece; its code splitter
    knows the grammars \<open>python\<close> and \<open>auto\<close> only and raises on any other
    language.
  \<^item> Its prose splitter returns no piece for the empty string, otherwise the whole text
    under the default rules and the sentences (split at full stops) under
    locale-specific rules.
\<close>

datatype stub_rules = Default_rules | Class_object | Locale_rules string

fun sentences :: "string \<Rightarrow> string \<Rightarrow> string list" where
  "sentences cur [] = (if cur = [] then [] else [cur])"
| "sentences cur (x # xs) =
     (if x = CHR ''.'' then (if cur = [] then sentences [] xs else cur # sentences [] xs)
      else sentences (cur @ [x]) xs)"

definition stub_prose :: "int \<times> stub_rules \<Rightarrow> string \<Rightarrow> error + string list" where
  "stub_prose h s =
     (case snd h of
        Locale_rules l \<Rightarrow> Inr (sentences [] s)
      | _ \<Rightarrow> Inr (if s = [] then [] else [s]))"

definition stub_chonkie ::
  "(string \<Rightarrow> MarkdownDocument) \<Rightarrow> (int, string \<times> int, int \<times> stub_rules, stub_rules) chonkie" where
  "stub_chonkie parser =
     \<lparr>MarkdownChef_parse = (\<lambda>f markdown. Inr ((parser markdown)\<lparr>images := f markdown\<rparr>)),
      RecursiveRules = Default_rules,
      RecursiveRules_class = Class_object,
      from_recipe = (\<lambda>l. Inr (Locale_rules l)),
      TableChunker = (\<lambda>n. if n \<le> 0 then Inl (LibraryError ''ValueError'') else Inr n),
      table_chunk = (\<lambda>h s. Inr [s]),
      CodeChunker = (\<lambda>l n. if n \<le> 0 then Inl (LibraryError ''ValueError'')
                            else if l = ''python'' \<or> l = ''auto'' then Inr (l, n)
                            else Inl (LibraryError ''unknown language'')),
      cc_language = fst,
      code_chunk = (\<lambda>h s. Inr [s]),
      RecursiveChunker = (\<lambda>n r. if n \<le> 0 \<or> r = Class_object
                                  then Inl (LibraryError ''ValueError'') else Inr (n, r)),
      recursive_chunk = stub_prose\<rparr>"

text \<open>
  Two parsers for the stand-in: one that takes the whole text as a single prose segment,
  and one that returns a document with a prose segment (two sentences) at offset 0, a
  table at offset 21 and, at offset 40, a code block in a language without a grammar.
  The second document lists an image at offset 3, which the parser object discards.
\<close>

definition prose_only :: "string \<Rightarrow> MarkdownDocument" where
  "prose_only markdown = \<lparr>tables = [], code = [], images = [], chunks = [Chunk markdown 0]\<rparr>"

definition mixed_document :: "string \<Rightarrow> MarkdownDocument" where
  "mixed_document markdown =
     \<lparr>tables = [MarkdownTable ''| a | b |'' 21],
      code = [MarkdownCode ''x = 1. y = 2'' (Some ''foo'') 40],
      images = [MarkdownImage 3],
      chunks = [Chunk ''# Title. Some text.'' 0]\<rparr>"

text \<open>
  A document whose table, code block (in a language with a grammar) and second prose
  segment share the offset 5, and a document that is a single code block in a language
  without a grammar, with nothing before it.
\<close>

definition tied_document :: "string \<Rightarrow> MarkdownDocument" where
  "tied_document markdown =
     \<lparr>tables = [MarkdownTable ''| t |'' 5],
      code = [MarkdownCode ''c = 1'' (Some ''python'') 5],
      images = [],
      chunks = [Chunk ''early'' 0, Chunk ''late'' 5]\<rparr>"

definition lone_code_document :: "string \<Rightarrow> MarkdownDocument" where
  "lone_code_document markdown =
     \<lparr>tables = [], code = [MarkdownCode ''x = 1'' (Some ''foo'') 0], images = [], chunks = []\<rparr>"

definition default_options :: ChunkOptions where
  "default_options = \<lparr>chunk_size = 2048, language_code = None\<rparr>"

definition english_options :: ChunkOptions where
  "english_options = \<lparr>chunk_size = 2048, language_code = Some ''en''\<rparr>"

definition counting_uuid4 :: "nat \<Rightarrow> string" where
  "counting_uuid4 k = ''id-'' @ replicate k (CHR ''i'')"

definition two_pages :: "document list" where
  "two_pages = [\<lparr>doc_text = ''AAAA'', page = Some 1\<rparr>, \<lparr>doc_text = ''BBBB'', page = Some 2\<rparr>]"

text \<open>A single document without a page, and the chunk dictionary number \<open>k\<close> of a run
  that draws its identifiers from \<open>counting_uuid4\<close>.\<close>

definition single_document :: "document list" where
  "single_document = [\<lparr>doc_text = ''# Title. Some text.'', page = None\<rparr>]"

definition example_chunk :: "nat \<Rightarrow> string \<Rightarrow> int option \<Rightarrow> chunk_dict" where
  "example_chunk k s p =
     \<lparr>chunk_id = counting_uuid4 k, chunk_text = s, sequence_number = int k, page_number = p\<rparr>"

section \<open>Properties of the parse_markdown loops\<close>

lemma number_from_append:
  "number_from n (ps @ qs) = number_from n ps @ number_from (n + int (length ps)) qs"
  by (induction ps arbitrary: n) (simp_all add: add.assoc)

lemma emit_number_from:
  "emit ps final_chunks n = (final_chunks @ number_from n ps, n + int (length ps))"
  by (induction ps arbitrary: final_chunks n) (simp_all add: add.assoc)

lemma item_loop_trace:
  "item_loop lib csize rules st final_chunks n xs =
     (case item_trace lib csize rules st xs of
        Inl e \<Rightarrow> Inl e
      | Inr tr \<Rightarrow> Inr (final_chunks @ number_from n (trace_pieces tr)))"
proof (induction xs arbitrary: st final_chunks n)
  case Nil
  show ?case by (simp add: trace_pieces_def)
next
  case (Cons x xs)
  show ?case
  proof (cases "chunk_item lib csize rules st x")
    case (Inl e)
    then show ?thesis by simp
  next
    case (Inr r)
    obtain ps st' where r: "r = (ps, st')" by (cases r)
    show ?thesis
      using Inr r Cons.IH [of st' "final_chunks @ number_from n ps" "n + int (length ps)"]
      by (simp add: emit_number_from trace_pieces_def number_from_append split: sum.splits)
  qed
qed

lemma item_trace_items:
  "item_trace lib csize rules st xs = Inr tr \<Longrightarrow> map fst tr = xs"
  by (induction xs arbitrary: st tr) (auto split: sum.splits)

lemma parse_markdown_trace:
  "parse_markdown lib markdown chunk_options =
     (case markdown_trace lib markdown chunk_options of
        Inl e \<Rightarrow> Inl e
      | Inr tr \<Rightarrow> Inr (number_from 0 (trace_pieces tr)))"
  by (simp add: parse_markdown_def markdown_trace_def item_loop_trace split: sum.splits)

lemma number_from_numbers:
  "map parsed_sequence_number (number_from n ps) = map (\<lambda>i. n + int i) [0..<length ps]"
proof (induction ps arbitrary: n)
  case Nil
  show ?case by simp
next
  case (Cons p ps)
  have "map (\<lambda>i. n + int i) [0..<Suc (length ps)] = n # map (\<lambda>i. n + 1 + int i) [0..<length ps]"
    by (simp add: upt_conv_Cons map_Suc_upt [symmetric] del: upt_Suc)
  then show ?case using Cons.IH [of "n + 1"] by simp
qed

lemma number_from_texts: "map parsed_text (number_from n ps) = map strip ps"
  by (induction ps arbitrary: n) simp_all

lemma length_number_from: "length (number_from n ps) = length ps"
  by (induction ps arbitrary: n) simp_all

section \<open>Properties of the chunk_documents loops\<close>

lemma flatten_append: "flatten (xs @ ys) = flatten xs @ flatten ys"
  by (simp add: flatten_def)

lemma flatten_simps:
  "flatten [] = []"
  "flatten (e # bs) = entry_chunks e @ flatten bs"
  "flatten (bs @ [e]) = flatten bs @ entry_chunks e"
  by (simp_all add: flatten_def)

lemma flatten_butlast:
  assumes "bs \<noteq> []" and "last bs = Batch g"
  shows "flatten (butlast bs) @ g = flatten bs"
proof -
  have "flatten (butlast bs @ [last bs]) = flatten (butlast bs) @ g"
    using assms(2) by (simp only: flatten_simps(3) entry_chunks.simps)
  then show ?thesis using assms(1) by simp
qed

lemma append_chunk_step:
  assumes "append_chunk uuid4 batch_size page_no st chunk = Inr st'"
  shows "flatten (batches st') = flatten (batches st) @ [new_chunk_dict uuid4 page_no st chunk]"
    and "total_chunks st' = total_chunks st + 1"
    and "uuid_calls st' = Suc (uuid_calls st)"
    and "total_characters st' = total_characters st + int (length (parsed_text chunk))"
  using assms
  by (auto simp: append_chunk_def Let_def flatten_simps flatten_butlast new_chunk_dict_def
      split: option.splits if_splits batch_entry.splits)

lemma dicts_from_append:
  "dicts_from uuid4 k n (xs @ ys) =
     dicts_from uuid4 k n xs @ dicts_from uuid4 (k + length xs) (n + int (length xs)) ys"
  by (induction xs arbitrary: k n) (simp_all add: add.assoc)

lemma length_dicts_from: "length (dicts_from uuid4 k n xs) = length xs"
  by (induction xs arbitrary: k n) simp_all

lemma chunk_loop_stream:
  assumes "chunk_loop uuid4 batch_size page_no st cs = Inr st'"
  shows "flatten (batches st') =
           flatten (batches st) @ dicts_from uuid4 (uuid_calls st) (total_chunks st) (map (Pair page_no) cs)
         \<and> total_chunks st' = total_chunks st + int (length cs)
         \<and> uuid_calls st' = uuid_calls st + length cs
         \<and> total_characters st' = total_characters st + sum_list (map (\<lambda>c. int (length (parsed_text c))) cs)"
  using assms
proof (induction cs arbitrary: st)
  case Nil
  then show ?case by simp
next
  case (Cons c cs)
  from Cons.prems obtain st1 where
    step: "append_chunk uuid4 batch_size page_no st c = Inr st1" and
    rest: "chunk_loop uuid4 batch_size page_no st1 cs = Inr st'"
    by (auto split: sum.splits)
  show ?case
    using Cons.IH [OF rest] append_chunk_step [OF step]
    by (simp add: new_chunk_dict_def)
qed

lemma paged_Nil: "paged [] pss = []"
  by (simp add: paged_def)

lemma paged_Cons: "paged (d # docs) (ps # pss) = map (Pair (page d)) ps @ paged docs pss"
  by (simp add: paged_def)

lemma doc_loop_stream:
  assumes "doc_loop lib uuid4 batch_size chunk_options st docs = Inr st'"
  shows "\<exists>pss. list_all2 (\<lambda>d ps. parse_markdown lib (doc_text d) chunk_options = Inr ps) docs pss
         \<and> flatten (batches st') =
           flatten (batches st) @ dicts_from uuid4 (uuid_calls st) (total_chunks st) (paged docs pss)
         \<and> total_chunks st' = total_chunks st + int (length (paged docs pss))
         \<and> total_characters st' = total_characters st
             + sum_list (map (\<lambda>x. int (length (parsed_text (snd x)))) (paged docs pss))"
  using assms
proof (induction docs arbitrary: st)
  case Nil
  then show ?case by (simp add: paged_Nil)
next
  case (Cons d docs)
  from Cons.prems obtain ps st1 where
    parsed: "parse_markdown lib (doc_text d) chunk_options = Inr ps" and
    inner: "chunk_loop uuid4 batch_size (page d) st ps = Inr st1" and
    rest: "doc_loop lib uuid4 batch_size chunk_options st1 docs = Inr st'"
    by (auto split: sum.splits)
  from Cons.IH [OF rest] obtain pss where
    all: "list_all2 (\<lambda>d ps. parse_markdown lib (doc_text d) chunk_options = Inr ps) docs pss" and
    fl: "flatten (batches st') =
           flatten (batches st1) @ dicts_from uuid4 (uuid_calls st1) (total_chunks st1) (paged docs pss)" and
    tc: "total_chunks st' = total_chunks st1 + int (length (paged docs pss))" and
    tch: "total_characters st' = total_characters st1
             + sum_list (map (\<lambda>x. int (length (parsed_text (snd x)))) (paged docs pss))"
    by blast
  note cl = chunk_loop_stream [OF inner]
  have "list_all2 (\<lambda>d ps. parse_markdown lib (doc_text d) chunk_options = Inr ps) (d # docs) (ps # pss)"
    using parsed all by simp
  moreover have "flatten (batches st') =
      flatten (batches st) @ dicts_from uuid4 (uuid_calls st) (total_chunks st) (paged (d # docs) (ps # pss))"
    using fl cl by (simp add: paged_Cons dicts_from_append)
  moreover have "total_chunks st' = total_chunks st + int (length (paged (d # docs) (ps # pss)))"
    using tc cl by (simp add: paged_Cons)
  moreover have "total_characters st' = total_characters st
             + sum_list (map (\<lambda>x. int (length (parsed_text (snd x)))) (paged (d # docs) (ps # pss)))"
    using tch cl by (simp add: paged_Cons comp_def)
  ultimately show ?case by blast
qed

lemma dicts_from_numbers:
  "map sequence_number (dicts_from uuid4 k n xs) = map (\<lambda>i. n + int i) [0..<length xs]"
proof (induction xs arbitrary: k n)
  case Nil
  show ?case by simp
next
  case (Cons x xs)
  have "map (\<lambda>i. n + int i) [0..<Suc (length xs)] = n # map (\<lambda>i. n + 1 + int i) [0..<length xs]"
    by (simp add: upt_conv_Cons map_Suc_upt [symmetric] del: upt_Suc)
  then show ?case using Cons.IH [of "Suc k" "n + 1"] by simp
qed

lemma dicts_from_pages: "map page_number (dicts_from uuid4 k n xs) = map fst xs"
  by (induction xs arbitrary: k n) simp_all

lemma dicts_from_texts: "map chunk_text (dicts_from uuid4 k n xs) = map (\<lambda>x. parsed_text (snd x)) xs"
  by (induction xs arbitrary: k n) simp_all

lemma dicts_from_erase:
  "map erase_id (dicts_from u1 k n xs) = map erase_id (dicts_from u2 k n xs)"
  by (induction xs arbitrary: k n) (simp_all add: erase_id_def)

section \<open>Properties of the batching\<close>

lemma well_grouped_Nil: "well_grouped b []"
  by (simp add: well_grouped_def)

lemma well_grouped_single: "well_grouped b [e] \<longleftrightarrow> is_group e \<and> 1 \<le> entry_len e \<and> entry_len e \<le> b"
  by (auto simp: well_grouped_def)

lemma well_grouped_Cons:
  "bs \<noteq> [] \<Longrightarrow> well_grouped b (e # bs) \<longleftrightarrow> is_group e \<and> entry_len e = b \<and> well_grouped b bs"
  by (auto simp: well_grouped_def)

lemma well_grouped_open:
  assumes "well_grouped b bs" and "bs = [] \<or> entry_len (last bs) = b"
  shows "well_grouped b (bs @ [Batch [c]]) \<longleftrightarrow> 1 \<le> b"
  using assms by (cases bs rule: rev_cases) (auto simp: well_grouped_def butlast_append)

lemma well_grouped_extend:
  assumes "well_grouped b bs" and "bs \<noteq> []" and "last bs = Batch g" and "int (length g) < b"
  shows "well_grouped b (butlast bs @ [Batch (g @ [c])])"
  using assms by (cases bs rule: rev_cases) (auto simp: well_grouped_def)

lemma full_iff_mod:
  fixes n b :: int
  assumes "1 \<le> n" and "n \<le> b"
  shows "n mod b = 0 \<longleftrightarrow> n = b"
proof
  assume "n mod b = 0"
  show "n = b"
  proof (rule ccontr)
    assume "n \<noteq> b"
    then have "n < b" using assms by simp
    then have "n mod b = n" using assms by simp
    then show False using \<open>n mod b = 0\<close> assms by simp
  qed
next
  assume "n = b"
  then show "n mod b = 0" by simp
qed

lemma append_chunk_grouped:
  assumes "0 < b" and "well_grouped b (batches st)"
  shows "\<exists>st'. append_chunk uuid4 (Some b) page_no st chunk = Inr st'
           \<and> well_grouped b (batches st')
           \<and> total_batches st' - int (length (batches st')) = total_batches st - int (length (batches st))
           \<and> batches st' =
               (if batches st = [] \<or> entry_len (last (batches st)) = b
                then batches st @ [Batch [new_chunk_dict uuid4 page_no st chunk]]
                else butlast (batches st)
                     @ [Batch (entry_chunks (last (batches st)) @ [new_chunk_dict uuid4 page_no st chunk])])"
proof (cases "batches st = []")
  case True
  then show ?thesis
    using assms by (simp add: append_chunk_def Let_def well_grouped_single)
next
  case False
  from assms(2) False have grp: "is_group (last (batches st))"
    and lo: "1 \<le> entry_len (last (batches st))"
    and hi: "entry_len (last (batches st)) \<le> b"
    by (auto simp: well_grouped_def list_all_iff)
  from grp obtain g where g: "last (batches st) = Batch g"
    by (cases "last (batches st)") auto
  show ?thesis
  proof (cases "entry_len (last (batches st)) = b")
    case True
    then have "well_grouped b (batches st @ [Batch [new_chunk_dict uuid4 page_no st chunk]])"
      using well_grouped_open [OF assms(2)] assms(1) by simp
    then show ?thesis
      using True False assms(1) by (simp add: append_chunk_def Let_def)
  next
    case neq: False
    then have "entry_len (last (batches st)) mod b \<noteq> 0"
      using full_iff_mod [OF lo hi] by simp
    moreover have "int (length g) < b" using neq hi g by simp
    then have "well_grouped b (butlast (batches st) @ [Batch (g @ [new_chunk_dict uuid4 page_no st chunk])])"
      using well_grouped_extend [OF assms(2) False g] by simp
    ultimately show ?thesis
      using neq False assms(1) g by (simp add: append_chunk_def Let_def)
  qed
qed

lemma chunk_loop_grouped:
  assumes "0 < b" and "well_grouped b (batches st)"
  shows "\<exists>st'. chunk_loop uuid4 (Some b) page_no st cs = Inr st'
           \<and> well_grouped b (batches st')
           \<and> total_batches st' - int (length (batches st')) = total_batches st - int (length (batches st))"
  using assms(2)
proof (induction cs arbitrary: st)
  case Nil
  then show ?case by simp
next
  case (Cons c cs)
  from append_chunk_grouped [OF assms(1) Cons.prems, of uuid4 page_no c] obtain st1 where
    step: "append_chunk uuid4 (Some b) page_no st c = Inr st1" and
    wg: "well_grouped b (batches st1)" and
    cnt: "total_batches st1 - int (length (batches st1)) = total_batches st - int (length (batches st))"
    by blast
  from Cons.IH [OF wg] step cnt show ?case by auto
qed

lemma doc_loop_grouped:
  assumes "0 < b" and "well_grouped b (batches st)"
    and "doc_loop lib uuid4 (Some b) chunk_options st docs = Inr st'"
  shows "well_grouped b (batches st')
           \<and> total_batches st' - int (length (batches st')) = total_batches st - int (length (batches st))"
  using assms(2,3)
proof (induction docs arbitrary: st)
  case Nil
  then show ?case by simp
next
  case (Cons d docs)
  from Cons.prems(2) obtain ps st1 where
    inner: "chunk_loop uuid4 (Some b) (page d) st ps = Inr st1" and
    rest: "doc_loop lib uuid4 (Some b) chunk_options st1 docs = Inr st'"
    by (auto split: sum.splits)
  from chunk_loop_grouped [OF assms(1) Cons.prems(1), of uuid4 "page d" ps] inner
  have wg: "well_grouped b (batches st1)" and
    cnt: "total_batches st1 - int (length (batches st1)) = total_batches st - int (length (batches st))"
    by auto
  from Cons.IH [OF wg rest] cnt show ?case by simp
qed

lemma well_grouped_length:
  assumes "well_grouped b bs" and "bs \<noteq> []"
  shows "int (length (flatten bs)) = (int (length bs) - 1) * b + entry_len (last bs)"
  using assms
proof (induction bs)
  case Nil
  then show ?case by simp
next
  case (Cons e bs)
  show ?case
  proof (cases "bs = []")
    case True
    with Cons.prems show ?thesis
      by (cases e) (simp_all add: well_grouped_single flatten_simps)
  next
    case False
    with Cons.prems have e: "is_group e" "entry_len e = b" and wg: "well_grouped b bs"
      by (simp_all add: well_grouped_Cons)
    from e(1) obtain g where g: "e = Batch g" by (cases e) auto
    from Cons.IH [OF wg False] e g False show ?thesis
      by (simp add: flatten_simps algebra_simps)
  qed
qed

lemma ceiling_groups:
  fixes n b l :: int
  assumes "0 < b" and "1 \<le> l" and "l \<le> b"
  shows "((n - 1) * b + l + b - 1) div b = n"
proof -
  have "((n - 1) * b + l + b - 1) div b = ((l - 1) + n * b) div b"
    by (simp add: algebra_simps)
  also have "\<dots> = (l - 1) div b + n"
    using assms(1) by simp
  also have "(l - 1) div b = 0"
    using assms by simp
  finally show ?thesis by simp
qed

lemma well_grouped_count:
  assumes "0 < b" and "well_grouped b bs"
  shows "int (length bs) = (int (length (flatten bs)) + b - 1) div b"
proof (cases "bs = []")
  case True
  then show ?thesis using assms(1) by (simp add: flatten_simps)
next
  case False
  from assms(2) False have "1 \<le> entry_len (last bs)" "entry_len (last bs) \<le> b"
    by (auto simp: well_grouped_def)
  from ceiling_groups [OF assms(1) this, of "int (length bs)"]
    well_grouped_length [OF assms(2) False]
  show ?thesis by simp
qed

lemma well_grouped_groups_of:
  assumes "0 < b" and "well_grouped b bs"
  shows "bs = map Batch (groups_of (nat b) (flatten bs))"
  using assms(2)
proof (induction bs)
  case Nil
  show ?case by (simp add: flatten_simps groups_of.simps)
next
  case (Cons e bs)
  show ?case
  proof (cases "bs = []")
    case True
    with Cons.prems obtain g where g: "e = Batch g" "1 \<le> length g" "int (length g) \<le> b"
      by (cases e) (auto simp: well_grouped_single)
    then have "groups_of (nat b) g = [g]"
      using assms(1) by (subst groups_of.simps) (auto simp: groups_of.simps)
    then show ?thesis using True g by (simp add: flatten_simps)
  next
    case False
    with Cons.prems have e: "is_group e" "entry_len e = b" and wg: "well_grouped b bs"
      by (simp_all add: well_grouped_Cons)
    from e obtain g where g: "e = Batch g" "int (length g) = b" by (cases e) auto
    then have len: "length g = nat b" by simp
    have "g \<noteq> []" using g assms(1) by auto
    then have "groups_of (nat b) (g @ flatten bs) = g # groups_of (nat b) (flatten bs)"
      using assms(1) len by (subst groups_of.simps) simp
    then show ?thesis using Cons.IH [OF wg] g by (simp add: flatten_simps)
  qed
qed

section \<open>The chunk stream of a whole call\<close>

lemma paged_snd:
  "length docs = length pss \<Longrightarrow> map snd (paged docs pss) = concat pss"
  by (induction docs pss rule: list_induct2) (simp_all add: paged_Nil paged_Cons comp_def)

lemma paged_fst:
  "length docs = length pss \<Longrightarrow>
     map fst (paged docs pss) = concat (map (\<lambda>(d, ps). replicate (length ps) (page d)) (zip docs pss))"
  by (induction docs pss rule: list_induct2) (simp_all add: paged_Nil paged_Cons comp_def map_replicate_const)

lemma parse_markdown_InrD:
  assumes "parse_markdown lib markdown chunk_options = Inr ps"
  shows "\<exists>tr. markdown_trace lib markdown chunk_options = Inr tr \<and> ps = number_from 0 (trace_pieces tr)"
proof (cases "markdown_trace lib markdown chunk_options")
  case (Inl e)
  with assms show ?thesis by (simp add: parse_markdown_trace)
next
  case (Inr tr)
  with assms show ?thesis by (simp add: parse_markdown_trace)
qed

lemma parsed_traces:
  "list_all2 (\<lambda>d ps. parse_markdown lib (doc_text d) chunk_options = Inr ps) docs pss \<Longrightarrow>
   \<exists>trs. list_all2 (\<lambda>d tr. markdown_trace lib (doc_text d) chunk_options = Inr tr) docs trs
           \<and> pss = map (\<lambda>tr. number_from 0 (trace_pieces tr)) trs"
proof (induction docs arbitrary: pss)
  case Nil
  then show ?case by simp
next
  case (Cons d docs)
  from Cons.prems obtain ps pss' where
    split: "pss = ps # pss'" and
    hd: "parse_markdown lib (doc_text d) chunk_options = Inr ps" and
    tl: "list_all2 (\<lambda>d ps. parse_markdown lib (doc_text d) chunk_options = Inr ps) docs pss'"
    by (auto simp: list_all2_Cons1)
  from Cons.IH [OF tl] obtain trs where
    trs: "list_all2 (\<lambda>d tr. markdown_trace lib (doc_text d) chunk_options = Inr tr) docs trs"
    and eq: "pss' = map (\<lambda>tr. number_from 0 (trace_pieces tr)) trs" by blast
  from parse_markdown_InrD [OF hd] obtain tr where
    tr: "markdown_trace lib (doc_text d) chunk_options = Inr tr" and
    ps: "ps = number_from 0 (trace_pieces tr)" by blast
  have "list_all2 (\<lambda>d tr. markdown_trace lib (doc_text d) chunk_options = Inr tr) (d # docs) (tr # trs)"
    using tr trs by simp
  moreover have "pss = map (\<lambda>tr. number_from 0 (trace_pieces tr)) (tr # trs)"
    by (simp add: split ps eq)
  ultimately show ?case by blast
qed

lemma chunk_documents_stream:
  assumes "chunk_documents lib uuid4 documents batch_size chunk_options = Inr (bs, tchars, tchunks, tbatches)"
  shows "\<exists>pss. list_all2 (\<lambda>d ps. parse_markdown lib (doc_text d) chunk_options = Inr ps) documents pss
           \<and> flatten bs = dicts_from uuid4 0 0 (paged documents pss)
           \<and> tchunks = int (length (flatten bs))
           \<and> tchars = sum_list (map (\<lambda>c. int (length (chunk_text c))) (flatten bs))"
proof -
  from assms obtain st where
    run: "doc_loop lib uuid4 batch_size chunk_options initial documents = Inr st" and
    res: "bs = batches st" "tchars = total_characters st" "tchunks = total_chunks st"
    by (auto simp: chunk_documents_def split: sum.splits)
  have start: "flatten (batches initial) = []" "uuid_calls initial = 0" "total_chunks initial = 0"
    "total_characters initial = 0"
    by (simp_all add: initial_def flatten_simps)
  from doc_loop_stream [OF run] obtain pss where
    pss: "list_all2 (\<lambda>d ps. parse_markdown lib (doc_text d) chunk_options = Inr ps) documents pss"
    and fl: "flatten (batches st) = dicts_from uuid4 0 0 (paged documents pss)"
    and tc: "total_chunks st = int (length (paged documents pss))"
    and tch: "total_characters st = sum_list (map (\<lambda>x. int (length (parsed_text (snd x)))) (paged documents pss))"
    unfolding start by auto
  have "map (\<lambda>c. int (length (chunk_text c))) (dicts_from uuid4 0 0 (paged documents pss))
      = map (\<lambda>x. int (length x)) (map chunk_text (dicts_from uuid4 0 0 (paged documents pss)))"
    by (simp add: comp_def)
  also have "\<dots> = map (\<lambda>x. int (length (parsed_text (snd x)))) (paged documents pss)"
    by (simp only: dicts_from_texts) (simp add: comp_def)
  finally have chars: "total_characters st
      = sum_list (map (\<lambda>c. int (length (chunk_text c))) (dicts_from uuid4 0 0 (paged documents pss)))"
    using tch by simp
  have "flatten bs = dicts_from uuid4 0 0 (paged documents pss)"
    using fl res(1) by simp
  moreover have "tchunks = int (length (flatten bs))"
    using tc res fl by (simp add: length_dicts_from)
  moreover have "tchars = sum_list (map (\<lambda>c. int (length (chunk_text c))) (flatten bs))"
    using chars res fl by simp
  ultimately show ?thesis using pss by blast
qed

section \<open>Batching disabled\<close>




section \<open>Batching with a positive batch size\<close>

lemma chunk_documents_grouped:
  assumes "0 < b"
    and "chunk_documents lib uuid4 documents (Some b) chunk_options = Inr (bs, tchars, tchunks, tbatches)"
  shows "well_grouped b bs \<and> tbatches = int (length bs) \<and> tchunks = int (length (flatten bs))"
proof -
  from assms(2) obtain st where
    run: "doc_loop lib uuid4 (Some b) chunk_options initial documents = Inr st" and
    res: "bs = batches st" "tbatches = total_batches st"
    by (auto simp: chunk_documents_def split: sum.splits)
  have "well_grouped b (batches initial)"
    by (simp add: initial_def well_grouped_Nil)
  from doc_loop_grouped [OF assms(1) this run] res
  have "well_grouped b bs" "tbatches = int (length bs)"
    by (simp_all add: initial_def)
  moreover from chunk_documents_stream [OF assms(2)] have "tchunks = int (length (flatten bs))"
    by blast
  ultimately show ?thesis by simp
qed

lemma well_grouped_groups:
  assumes "well_grouped b bs"
  shows "\<exists>gs. bs = map Batch gs \<and> concat gs = flatten bs
           \<and> (\<forall>g \<in> set (butlast gs). int (length g) = b)
           \<and> (gs = [] \<or> (1 \<le> length (last gs) \<and> int (length (last gs)) \<le> b))"
proof -
  let ?gs = "map entry_chunks bs"
  from assms have grp: "list_all is_group bs" by (simp add: well_grouped_def)
  have inv: "is_group e \<Longrightarrow> Batch (entry_chunks e) = e" for e
    by (cases e) simp_all
  have len: "is_group e \<Longrightarrow> int (length (entry_chunks e)) = entry_len e" for e
    by (cases e) simp_all
  have eq: "bs = map Batch ?gs"
    using grp by (induction bs) (simp_all add: inv)
  have cc: "concat ?gs = flatten bs" by (simp add: flatten_def)
  have full: "\<forall>g \<in> set (butlast ?gs). int (length g) = b"
  proof
    fix g assume "g \<in> set (butlast ?gs)"
    then obtain e where e: "e \<in> set (butlast bs)" "g = entry_chunks e"
      by (auto simp: map_butlast [symmetric])
    from e(1) have "e \<in> set bs" by (rule in_set_butlastD)
    with grp have "is_group e" by (simp add: list_all_iff)
    moreover from assms e(1) have "entry_len e = b" by (simp add: well_grouped_def list_all_iff)
    ultimately show "int (length g) = b" using e(2) len by simp
  qed
  have lst: "?gs = [] \<or> (1 \<le> length (last ?gs) \<and> int (length (last ?gs)) \<le> b)"
  proof (cases "bs = []")
    case True
    then show ?thesis by simp
  next
    case False
    then have "last bs \<in> set bs" by simp
    with grp have "is_group (last bs)" by (simp add: list_all_iff)
    then have "int (length (entry_chunks (last bs))) = entry_len (last bs)" by (rule len)
    moreover from assms False have "1 \<le> entry_len (last bs)" "entry_len (last bs) \<le> b"
      by (simp_all add: well_grouped_def)
    ultimately show ?thesis using False by (simp add: last_map)
  qed
  from eq cc full lst show ?thesis by blast
qed

lemma doc_loop_append:
  "doc_loop lib uuid4 batch_size chunk_options st (docs1 @ docs2) =
     (case doc_loop lib uuid4 batch_size chunk_options st docs1 of
        Inl e \<Rightarrow> Inl e
      | Inr st1 \<Rightarrow> doc_loop lib uuid4 batch_size chunk_options st1 docs2)"
  by (induction docs1 arbitrary: st) (simp_all split: sum.splits)

section \<open>Runs that differ in the identifiers drawn\<close>

lemma entry_len_erase: "entry_len (erase_entry e) = entry_len e"
  by (cases e) simp_all

lemma erase_new_chunk_dict:
  "total_chunks s = total_chunks t \<Longrightarrow>
   erase_id (new_chunk_dict u1 page_no s chunk) = erase_id (new_chunk_dict u2 page_no t chunk)"
  by (simp add: erase_id_def new_chunk_dict_def)

lemma erased_last:
  assumes "map erase_entry xs = map erase_entry ys" and "xs \<noteq> []"
  shows "erase_entry (last xs) = erase_entry (last ys)"
proof -
  from assms have "ys \<noteq> []" by auto
  with assms show ?thesis by (metis last_map)
qed

lemma erased_butlast:
  assumes "map erase_entry xs = map erase_entry ys"
  shows "map erase_entry (butlast xs) = map erase_entry (butlast ys)"
  using assms by (metis map_butlast)

lemma erase_entry_Batch:
  "erase_entry x = erase_entry y \<Longrightarrow> x = Batch g \<Longrightarrow> \<exists>h. y = Batch h \<and> map erase_id g = map erase_id h"
  by (cases y) simp_all

lemma erase_entry_Single:
  "erase_entry x = erase_entry y \<Longrightarrow> x = Single c \<Longrightarrow> \<exists>d. y = Single d"
  by (cases y) simp_all

lemma append_chunk_same:
  assumes "same_but_ids s t"
  shows "rel_sum (=) same_but_ids (append_chunk u1 batch_size page_no s chunk)
           (append_chunk u2 batch_size page_no t chunk)"
proof -
  from assms have bs: "map erase_entry (batches s) = map erase_entry (batches t)"
    and cnt: "total_characters s = total_characters t" "total_chunks s = total_chunks t"
      "total_batches s = total_batches t"
    by (simp_all add: same_but_ids_def)
  have new: "erase_id (new_chunk_dict u1 page_no s chunk) = erase_id (new_chunk_dict u2 page_no t chunk)"
    using cnt(2) by (rule erase_new_chunk_dict)
  have same_text: "chunk_text (new_chunk_dict u1 page_no s chunk) = chunk_text (new_chunk_dict u2 page_no t chunk)"
    by (simp add: new_chunk_dict_def)
  from bs have emp: "batches s = [] \<longleftrightarrow> batches t = []" by (metis map_is_Nil_conv)
  show ?thesis
  proof (cases batch_size)
    case None
    then show ?thesis
      using bs cnt new same_text by (simp add: append_chunk_def Let_def same_but_ids_def)
  next
    case (Some b)
    show ?thesis
    proof (cases "batches s = []")
      case True
      with emp have "batches t = []" by simp
      with True Some show ?thesis
        using cnt new same_text by (simp add: append_chunk_def Let_def same_but_ids_def)
    next
      case False
      with emp have ft: "batches t \<noteq> []" by simp
      from erased_last [OF bs False] have l: "erase_entry (last (batches s)) = erase_entry (last (batches t))" .
      then have el: "entry_len (last (batches s)) = entry_len (last (batches t))"
        by (metis entry_len_erase)
      show ?thesis
      proof (cases "b = 0")
        case True
        with False ft Some show ?thesis by (simp add: append_chunk_def Let_def)
      next
        case nz: False
        show ?thesis
        proof (cases "entry_len (last (batches s)) mod b = 0")
          case True
          with el have "entry_len (last (batches t)) mod b = 0" by simp
          with True nz False ft Some show ?thesis
            using bs cnt new same_text by (simp add: append_chunk_def Let_def same_but_ids_def)
        next
          case nf: False
          with el have nft: "entry_len (last (batches t)) mod b \<noteq> 0" by simp
          show ?thesis
          proof (cases "last (batches s)")
            case (Single c)
            from erase_entry_Single [OF l Single] obtain d where "last (batches t) = Single d" ..
            with Single nf nft nz False ft Some show ?thesis
              by (simp add: append_chunk_def Let_def)
          next
            case (Batch g)
            from erase_entry_Batch [OF l Batch] obtain h where
              h: "last (batches t) = Batch h" "map erase_id g = map erase_id h" by blast
            with Batch nf nft nz False ft Some show ?thesis
              using erased_butlast [OF bs] cnt new same_text
              by (simp add: append_chunk_def Let_def same_but_ids_def)
          qed
        qed
      qed
    qed
  qed
qed

lemma chunk_loop_same:
  assumes "same_but_ids s t"
  shows "rel_sum (=) same_but_ids (chunk_loop u1 batch_size page_no s cs)
           (chunk_loop u2 batch_size page_no t cs)"
  using assms
proof (induction cs arbitrary: s t)
  case Nil
  then show ?case by simp
next
  case (Cons c cs)
  from append_chunk_same [OF Cons.prems, of u1 batch_size page_no c u2]
  consider e where "append_chunk u1 batch_size page_no s c = Inl e"
      "append_chunk u2 batch_size page_no t c = Inl e"
    | s' t' where "append_chunk u1 batch_size page_no s c = Inr s'"
      "append_chunk u2 batch_size page_no t c = Inr t'" "same_but_ids s' t'"
    by (auto elim: rel_sum.cases)
  then show ?case
  proof cases
    case 1
    then show ?thesis by simp
  next
    case 2
    with Cons.IH [OF 2(3)] show ?thesis by simp
  qed
qed

lemma doc_loop_same:
  assumes "same_but_ids s t"
  shows "rel_sum (=) same_but_ids (doc_loop lib u1 batch_size chunk_options s docs)
           (doc_loop lib u2 batch_size chunk_options t docs)"
  using assms
proof (induction docs arbitrary: s t)
  case Nil
  then show ?case by simp
next
  case (Cons d docs)
  show ?case
  proof (cases "parse_markdown lib (doc_text d) chunk_options")
    case (Inl e)
    then show ?thesis by simp
  next
    case parsed: (Inr ps)
    from chunk_loop_same [OF Cons.prems, of u1 batch_size "page d" ps u2]
    consider e where "chunk_loop u1 batch_size (page d) s ps = Inl e"
        "chunk_loop u2 batch_size (page d) t ps = Inl e"
      | s' t' where "chunk_loop u1 batch_size (page d) s ps = Inr s'"
        "chunk_loop u2 batch_size (page d) t ps = Inr t'" "same_but_ids s' t'"
      by (auto elim: rel_sum.cases)
    then show ?thesis
    proof cases
      case 1
      with parsed show ?thesis by simp
    next
      case 2
      with parsed Cons.IH [OF 2(3)] show ?thesis by simp
    qed
  qed
qed

section \<open>The order of the items\<close>

lemma items_of_sorted: "sorted (map start_index (items_of document))"
  by (simp add: items_of_def)

lemma items_of_stable:
  "filter (\<lambda>x. start_index x = k) (items_of document) =
     map Table (filter (\<lambda>t. table_start_index t = k) (tables document))
     @ map Code (filter (\<lambda>c. code_start_index c = k) (code document))
     @ map Image (filter (\<lambda>i. image_start_index i = k) (images document))
     @ map Prose (filter (\<lambda>p. prose_start_index p = k) (chunks document))"
  by (simp add: items_of_def sort_key_stable filter_map comp_def)

lemma markdown_trace_InrD:
  assumes "markdown_trace lib markdown chunk_options = Inr tr"
  shows "\<exists>document. chef_parse lib (markdown @ [CHR 0x0A]) = Inr document
           \<and> map fst tr = items_of document"
  using assms
  by (auto simp: markdown_trace_def split: sum.splits dest: item_trace_items)

lemma items_of_no_image:
  "images document = [] \<Longrightarrow> list_all (\<lambda>x. \<not> is_image x) (items_of document)"
  by (simp add: items_of_def list_all_iff image_iff) auto

section \<open>The code branch and its fallback\<close>

lemma try_code_keeps_prose_splitter:
  assumes "try_code lib csize st c = Inl (e, st1)"
  shows "recursive_chunker st1 = recursive_chunker st"
  using assms
  by (auto simp: try_code_def construct_and_chunk_def reuse_and_chunk_def
      split: option.splits sum.splits if_splits)







lemma fallback_construction_error:
  assumes "try_code lib csize st c = Inl (e, st1)" and "recursive_chunker st = None"
    and "RecursiveChunker lib csize (RecursiveRules_class lib) = Inl e'"
  shows "chunk_item lib csize rules st (Code c) = Inl e'"
proof -
  from try_code_keeps_prose_splitter [OF assms(1)] assms(2) have "recursive_chunker st1 = None"
    by simp
  with assms(1,3) show ?thesis by (simp add: fallback_def prose_chunker_def)
qed

section \<open>Evaluations on the stand-in library\<close>

lemma parse_AAAA:
  "parse_markdown (stub_chonkie prose_only) ''AAAA'' default_options =
     Inr [\<lparr>parsed_text = ''AAAA'', parsed_sequence_number = 0\<rparr>]"
  by code_simp

lemma parse_BBBB:
  "parse_markdown (stub_chonkie prose_only) ''BBBB'' default_options =
     Inr [\<lparr>parsed_text = ''BBBB'', parsed_sequence_number = 0\<rparr>]"
  by code_simp

lemma stub_images_from_method: "images_from_method (stub_chonkie parser)"
  by (auto simp: images_from_method_def stub_chonkie_def)

section \<open>Claims\<close>

text \<open>
  C1.  In a successful call of \<open>chunk_documents\<close> the sequence numbers of the emitted
  chunks, read in the order of \<open>batches\<close>, are exactly 0, 1, ..., total_chunks - 1, with
  no gap and no repeat.  The chunks come in document order, within a document in the
  order of its items, and within an item in the order of its pieces: their texts are the
  stripped pieces of the documents' traces, concatenated.  The counter is not reset
  between documents.
\<close>

theorem sequence_numbers_global:
  assumes "chunk_documents lib uuid4 documents batch_size chunk_options = Inr (bs, tchars, tchunks, tbatches)"
  shows "map sequence_number (flatten bs) = map int [0..<length (flatten bs)]
       \<and> tchunks = int (length (flatten bs))
       \<and> (\<exists>trs. list_all2 (\<lambda>d tr. markdown_trace lib (doc_text d) chunk_options = Inr tr) documents trs
             \<and> map chunk_text (flatten bs) = map strip (concat (map trace_pieces trs)))"
proof -
  from chunk_documents_stream [OF assms] obtain pss where
    pss: "list_all2 (\<lambda>d ps. parse_markdown lib (doc_text d) chunk_options = Inr ps) documents pss"
    and fl: "flatten bs = dicts_from uuid4 0 0 (paged documents pss)"
    and tc: "tchunks = int (length (flatten bs))"
    by blast
  from parsed_traces [OF pss] obtain trs where
    trs: "list_all2 (\<lambda>d tr. markdown_trace lib (doc_text d) chunk_options = Inr tr) documents trs"
    and eq: "pss = map (\<lambda>tr. number_from 0 (trace_pieces tr)) trs" by blast
  have len: "length documents = length pss"
    using pss by (rule list_all2_lengthD)
  have nums: "map sequence_number (flatten bs) = map int [0..<length (flatten bs)]"
    by (simp add: fl dicts_from_numbers length_dicts_from)
  have "map chunk_text (flatten bs) = map parsed_text (map snd (paged documents pss))"
    by (simp add: fl dicts_from_texts comp_def)
  then have "map chunk_text (flatten bs) = map parsed_text (concat pss)"
    by (simp only: paged_snd [OF len])
  moreover have "map parsed_text (concat pss) = map strip (concat (map trace_pieces trs))"
    by (simp add: eq map_concat comp_def number_from_texts)
  ultimately have texts: "map chunk_text (flatten bs) = map strip (concat (map trace_pieces trs))"
    by simp
  from trs texts have "\<exists>trs. list_all2 (\<lambda>d tr. markdown_trace lib (doc_text d) chunk_options = Inr tr) documents trs
             \<and> map chunk_text (flatten bs) = map strip (concat (map trace_pieces trs))"
    by blast
  with nums tc show ?thesis by blast
qed

theorem sequence_numbers_global_witness:
  "chunk_documents (stub_chonkie prose_only) counting_uuid4 two_pages None default_options =
     Inr ([Single \<lparr>chunk_id = ''id-'', chunk_text = ''AAAA'', sequence_number = 0,
                   page_number = Some 1\<rparr>,
           Single \<lparr>chunk_id = ''id-i'', chunk_text = ''BBBB'', sequence_number = 1,
                   page_number = Some 2\<rparr>], 8, 2, 0)
   \<and> map sequence_number
         (flatten [Single \<lparr>chunk_id = ''id-'', chunk_text = ''AAAA'', sequence_number = 0,
                           page_number = Some 1\<rparr>,
                   Single \<lparr>chunk_id = ''id-i'', chunk_text = ''BBBB'', sequence_number = 1,
                           page_number = Some 2\<rparr>]) = [0, 1]"
proof -
  have run: "chunk_documents (stub_chonkie prose_only) counting_uuid4 two_pages None default_options =
     Inr ([Single \<lparr>chunk_id = ''id-'', chunk_text = ''AAAA'', sequence_number = 0,
                   page_number = Some 1\<rparr>,
           Single \<lparr>chunk_id = ''id-i'', chunk_text = ''BBBB'', sequence_number = 1,
                   page_number = Some 2\<rparr>], 8, 2, 0)"
    by code_simp
  show ?thesis
    using run sequence_numbers_global [OF run] by (simp add: flatten_simps)
qed

text \<open>
  C4.  A successful \<open>parse_markdown\<close> emits its chunks item after item (the numbered,
  stripped pieces of the trace), and the items are the parsed document's tables, code
  blocks, images and prose segments in non-decreasing order of \<open>start_index\<close>.  Among
  the items that share a \<open>start_index\<close> the tables come first, then the code blocks,
  then the images, then the prose segments, each family in its own order: the four lists
  are concatenated in that order and sorted stably.
\<close>

theorem elements_in_start_index_order:
  assumes "parse_markdown lib markdown chunk_options = Inr cs"
  shows "\<exists>document tr.
           chef_parse lib (markdown @ [CHR 0x0A]) = Inr document
           \<and> markdown_trace lib markdown chunk_options = Inr tr
           \<and> cs = number_from 0 (trace_pieces tr)
           \<and> map fst tr = items_of document
           \<and> sorted (map start_index (map fst tr))
           \<and> (\<forall>k. filter (\<lambda>x. start_index x = k) (map fst tr) =
                 map Table (filter (\<lambda>t. table_start_index t = k) (tables document))
                 @ map Code (filter (\<lambda>c. code_start_index c = k) (code document))
                 @ map Image (filter (\<lambda>i. image_start_index i = k) (images document))
                 @ map Prose (filter (\<lambda>p. prose_start_index p = k) (chunks document)))"
proof -
  from parse_markdown_InrD [OF assms] obtain tr where
    tr: "markdown_trace lib markdown chunk_options = Inr tr" and
    cs: "cs = number_from 0 (trace_pieces tr)" by blast
  from markdown_trace_InrD [OF tr] obtain document where
    doc: "chef_parse lib (markdown @ [CHR 0x0A]) = Inr document" and
    items: "map fst tr = items_of document" by blast
  have "sorted (map start_index (map fst tr))"
    by (simp only: items items_of_sorted)
  moreover have "\<forall>k. filter (\<lambda>x. start_index x = k) (map fst tr) =
                 map Table (filter (\<lambda>t. table_start_index t = k) (tables document))
                 @ map Code (filter (\<lambda>c. code_start_index c = k) (code document))
                 @ map Image (filter (\<lambda>i. image_start_index i = k) (images document))
                 @ map Prose (filter (\<lambda>p. prose_start_index p = k) (chunks document))"
    by (simp only: items items_of_stable) simp
  ultimately show ?thesis using doc tr cs items by blast
qed

theorem elements_in_start_index_order_witness:
  "parse_markdown (stub_chonkie tied_document) ''# doc'' default_options =
     Inr [\<lparr>parsed_text = ''early'', parsed_sequence_number = 0\<rparr>,
          \<lparr>parsed_text = ''| t |'', parsed_sequence_number = 1\<rparr>,
          \<lparr>parsed_text = ''c = 1'', parsed_sequence_number = 2\<rparr>,
          \<lparr>parsed_text = ''late'', parsed_sequence_number = 3\<rparr>]
   \<and> markdown_trace (stub_chonkie tied_document) ''# doc'' default_options =
     Inr [(Prose (Chunk ''early'' 0), [''early'']),
          (Table (MarkdownTable ''| t |'' 5), [''| t |'']),
          (Code (MarkdownCode ''c = 1'' (Some ''python'') 5), [''c = 1'']),
          (Prose (Chunk ''late'' 5), [''late''])]
   \<and> sorted (map start_index
         [Prose (Chunk ''early'' 0), Table (MarkdownTable ''| t |'' 5),
          Code (MarkdownCode ''c = 1'' (Some ''python'') 5), Prose (Chunk ''late'' 5)])"
proof -
  have run: "parse_markdown (stub_chonkie tied_document) ''# doc'' default_options =
     Inr [\<lparr>parsed_text = ''early'', parsed_sequence_number = 0\<rparr>,
          \<lparr>parsed_text = ''| t |'', parsed_sequence_number = 1\<rparr>,
          \<lparr>parsed_text = ''c = 1'', parsed_sequence_number = 2\<rparr>,
          \<lparr>parsed_text = ''late'', parsed_sequence_number = 3\<rparr>]"
    by code_simp
  have trace: "markdown_trace (stub_chonkie tied_document) ''# doc'' default_options =
     Inr [(Prose (Chunk ''early'' 0), [''early'']),
          (Table (MarkdownTable ''| t |'' 5), [''| t |'']),
          (Code (MarkdownCode ''c = 1'' (Some ''python'') 5), [''c = 1'']),
          (Prose (Chunk ''late'' 5), [''late''])]"
    by code_simp
  from elements_in_start_index_order [OF run] obtain tr where
    "markdown_trace (stub_chonkie tied_document) ''# doc'' default_options = Inr tr"
    and ordered: "sorted (map start_index (map fst tr))"
    by (elim exE conjE)
  with trace have "sorted (map start_index
         [Prose (Chunk ''early'' 0), Table (MarkdownTable ''| t |'' 5),
          Code (MarkdownCode ''c = 1'' (Some ''python'') 5), Prose (Chunk ''late'' 5)])"
    by simp
  with run trace show ?thesis by (intro conjI)
qed

text \<open>
  C5.  In a successful call of \<open>chunk_documents\<close> the chunks of each document form one
  block of the chunk stream, in document order, and every chunk of a document's block
  carries that document's page: \<open>page_number\<close> is the document's \<open>page\<close>, the same
  for all chunks of the document (and absent when the document has none).  The sequence
  numbers keep increasing through the blocks.
\<close>

theorem page_number_per_document:
  assumes "chunk_documents lib uuid4 documents batch_size chunk_options = Inr (bs, tchars, tchunks, tbatches)"
  shows "\<exists>pss. list_all2 (\<lambda>d ps. parse_markdown lib (doc_text d) chunk_options = Inr ps) documents pss
           \<and> map page_number (flatten bs)
               = concat (map (\<lambda>(d, ps). replicate (length ps) (page d)) (zip documents pss))
           \<and> map sequence_number (flatten bs) = map int [0..<length (flatten bs)]"
proof -
  from chunk_documents_stream [OF assms] obtain pss where
    pss: "list_all2 (\<lambda>d ps. parse_markdown lib (doc_text d) chunk_options = Inr ps) documents pss"
    and fl: "flatten bs = dicts_from uuid4 0 0 (paged documents pss)"
    by blast
  have len: "length documents = length pss"
    using pss by (rule list_all2_lengthD)
  have "map page_number (flatten bs) = map fst (paged documents pss)"
    by (simp add: fl dicts_from_pages)
  then have pages: "map page_number (flatten bs)
      = concat (map (\<lambda>(d, ps). replicate (length ps) (page d)) (zip documents pss))"
    by (simp only: paged_fst [OF len])
  have nums: "map sequence_number (flatten bs) = map int [0..<length (flatten bs)]"
    by (simp add: fl dicts_from_numbers length_dicts_from)
  from pss pages nums show ?thesis by blast
qed

theorem page_number_per_document_witness:
  "chunk_documents (stub_chonkie prose_only) counting_uuid4 two_pages (Some 5) default_options =
     Inr ([Batch [\<lparr>chunk_id = ''id-'', chunk_text = ''AAAA'', sequence_number = 0,
                   page_number = Some 1\<rparr>,
                  \<lparr>chunk_id = ''id-i'', chunk_text = ''BBBB'', sequence_number = 1,
                   page_number = Some 2\<rparr>]], 8, 2, 1)
   \<and> map page_number
         (flatten [Batch [\<lparr>chunk_id = ''id-'', chunk_text = ''AAAA'', sequence_number = 0,
                   page_number = Some 1\<rparr>,
                  \<lparr>chunk_id = ''id-i'', chunk_text = ''BBBB'', sequence_number = 1,
                   page_number = Some 2\<rparr>]]) = [page (two_pages ! 0), page (two_pages ! 1)]"
proof -
  have run: "chunk_documents (stub_chonkie prose_only) counting_uuid4 two_pages (Some 5) default_options =
     Inr ([Batch [\<lparr>chunk_id = ''id-'', chunk_text = ''AAAA'', sequence_number = 0,
                   page_number = Some 1\<rparr>,
                  \<lparr>chunk_id = ''id-i'', chunk_text = ''BBBB'', sequence_number = 1,
                   page_number = Some 2\<rparr>]], 8, 2, 1)"
    by code_simp
  from page_number_per_document [OF run] obtain pss where
    pss: "list_all2 (\<lambda>d ps. parse_markdown (stub_chonkie prose_only) (doc_text d) default_options = Inr ps)
            two_pages pss"
    and pages: "map page_number
         (flatten [Batch [\<lparr>chunk_id = ''id-'', chunk_text = ''AAAA'', sequence_number = 0,
                   page_number = Some 1\<rparr>,
                  \<lparr>chunk_id = ''id-i'', chunk_text = ''BBBB'', sequence_number = 1,
                   page_number = Some 2\<rparr>]])
       = concat (map (\<lambda>(d, ps). replicate (length ps) (page d)) (zip two_pages pss))"
    by blast
  from pss have "pss = [[\<lparr>parsed_text = ''AAAA'', parsed_sequence_number = 0\<rparr>],
                        [\<lparr>parsed_text = ''BBBB'', parsed_sequence_number = 0\<rparr>]]"
    by (auto simp: two_pages_def list_all2_Cons1 parse_AAAA parse_BBBB)
  with pages have "map page_number
         (flatten [Batch [\<lparr>chunk_id = ''id-'', chunk_text = ''AAAA'', sequence_number = 0,
                   page_number = Some 1\<rparr>,
                  \<lparr>chunk_id = ''id-i'', chunk_text = ''BBBB'', sequence_number = 1,
                   page_number = Some 2\<rparr>]]) = [page (two_pages ! 0), page (two_pages ! 1)]"
    by (simp add: two_pages_def)
  with run show ?thesis by blast
qed




text \<open>
  C7.  \<open>extract_images\<close> returns the empty list for every markdown text.  Hence, when
  the inherited \<open>parse\<close> takes the document's images from that method, the document
  of a successful \<open>parse_markdown\<close> has no image, no item of the trace is an image,
  and so no emitted chunk comes from an image.
\<close>

theorem no_chunk_from_an_image:
  assumes "images_from_method lib" and "parse_markdown lib markdown chunk_options = Inr cs"
  shows "extract_images any_markdown = []
       \<and> (\<exists>document tr.
             chef_parse lib (markdown @ [CHR 0x0A]) = Inr document
             \<and> images document = []
             \<and> markdown_trace lib markdown chunk_options = Inr tr
             \<and> cs = number_from 0 (trace_pieces tr)
             \<and> list_all (\<lambda>x. \<not> is_image x) (map fst tr))"
proof -
  from parse_markdown_InrD [OF assms(2)] obtain tr where
    tr: "markdown_trace lib markdown chunk_options = Inr tr" and
    cs: "cs = number_from 0 (trace_pieces tr)" by blast
  from markdown_trace_InrD [OF tr] obtain document where
    doc: "chef_parse lib (markdown @ [CHR 0x0A]) = Inr document" and
    items: "map fst tr = items_of document" by blast
  from doc assms(1) have "images document = extract_images (markdown @ [CHR 0x0A])"
    by (simp add: chef_parse_def images_from_method_def)
  then have none: "images document = []" by (simp add: extract_images_def)
  have "list_all (\<lambda>x. \<not> is_image x) (map fst tr)"
    by (simp only: items items_of_no_image [OF none])
  with doc none tr cs have "\<exists>document tr.
             chef_parse lib (markdown @ [CHR 0x0A]) = Inr document
             \<and> images document = []
             \<and> markdown_trace lib markdown chunk_options = Inr tr
             \<and> cs = number_from 0 (trace_pieces tr)
             \<and> list_all (\<lambda>x. \<not> is_image x) (map fst tr)"
    by blast
  then show ?thesis by (simp add: extract_images_def)
qed

theorem no_chunk_from_an_image_witness:
  "images_from_method (stub_chonkie mixed_document)
   \<and> images (mixed_document ''# doc'') = [MarkdownImage 3]
   \<and> parse_markdown (stub_chonkie mixed_document) ''# doc'' default_options =
       Inr [\<lparr>parsed_text = ''# Title. Some text.'', parsed_sequence_number = 0\<rparr>,
            \<lparr>parsed_text = ''| a | b |'', parsed_sequence_number = 1\<rparr>,
            \<lparr>parsed_text = ''x = 1. y = 2'', parsed_sequence_number = 2\<rparr>]
   \<and> (\<exists>document tr.
         chef_parse (stub_chonkie mixed_document) (''# doc'' @ [CHR 0x0A]) = Inr document
         \<and> images document = []
         \<and> markdown_trace (stub_chonkie mixed_document) ''# doc'' default_options = Inr tr
         \<and> [\<lparr>parsed_text = ''# Title. Some text.'', parsed_sequence_number = 0\<rparr>,
            \<lparr>parsed_text = ''| a | b |'', parsed_sequence_number = 1\<rparr>,
            \<lparr>parsed_text = ''x = 1. y = 2'', parsed_sequence_number = 2\<rparr>]
           = number_from 0 (trace_pieces tr)
         \<and> list_all (\<lambda>x. \<not> is_image x) (map fst tr))"
proof -
  have hook: "images_from_method (stub_chonkie mixed_document)"
    by (rule stub_images_from_method)
  have listed: "images (mixed_document ''# doc'') = [MarkdownImage 3]"
    by (simp add: mixed_document_def)
  have run: "parse_markdown (stub_chonkie mixed_document) ''# doc'' default_options =
       Inr [\<lparr>parsed_text = ''# Title. Some text.'', parsed_sequence_number = 0\<rparr>,
            \<lparr>parsed_text = ''| a | b |'', parsed_sequence_number = 1\<rparr>,
            \<lparr>parsed_text = ''x = 1. y = 2'', parsed_sequence_number = 2\<rparr>]"
    by code_simp
  from no_chunk_from_an_image [OF hook run] have "\<exists>document tr.
         chef_parse (stub_chonkie mixed_document) (''# doc'' @ [CHR 0x0A]) = Inr document
         \<and> images document = []
         \<and> markdown_trace (stub_chonkie mixed_document) ''# doc'' default_options = Inr tr
         \<and> [\<lparr>parsed_text = ''# Title. Some text.'', parsed_sequence_number = 0\<rparr>,
            \<lparr>parsed_text = ''| a | b |'', parsed_sequence_number = 1\<rparr>,
            \<lparr>parsed_text = ''x = 1. y = 2'', parsed_sequence_number = 2\<rparr>]
           = number_from 0 (trace_pieces tr)
         \<and> list_all (\<lambda>x. \<not> is_image x) (map fst tr)"
    by (rule conjunct2)
  with hook listed run show ?thesis by (intro conjI)
qed



text \<open>
  C2.  A code block in a language without a grammar should still yield at least one chunk
  through the prose fallback, and nothing should be raised to the caller.  The code does
  not do that when the block is met before any prose segment: the \<open>except\<close> handler
  constructs the prose splitter with the class object \<open>RecursiveRules\<close> where the
  \<open>rules\<close> expression at the head of the function passes an instance, the
  constructor raises \<open>ValueError\<close>, and the exception leaves \<open>parse_markdown\<close>
  and \<open>chunk_documents\<close>.  Evaluated on a document that is one such code block.
\<close>

theorem code_fallback_raises_to_the_caller:
  "try_code (stub_chonkie lone_code_document) 2048 no_chunkers (MarkdownCode ''x = 1'' (Some ''foo'') 0)
     = Inl (LibraryError ''unknown language'', no_chunkers)
   \<and> RecursiveChunker (stub_chonkie lone_code_document) 2048
        (RecursiveRules_class (stub_chonkie lone_code_document)) = Inl (LibraryError ''ValueError'')
   \<and> RecursiveChunker (stub_chonkie lone_code_document) 2048
        (RecursiveRules (stub_chonkie lone_code_document)) = Inr (2048, Default_rules)
   \<and> parse_markdown (stub_chonkie lone_code_document)
        (''```foo'' @ [CHR 0x0A] @ ''x = 1'' @ [CHR 0x0A] @ ''```'') default_options
     = Inl (LibraryError ''ValueError'')
   \<and> chunk_documents (stub_chonkie lone_code_document) counting_uuid4
        [\<lparr>doc_text = ''```foo'' @ [CHR 0x0A] @ ''x = 1'' @ [CHR 0x0A] @ ''```'', page = Some 1\<rparr>]
        None default_options
     = Inl (LibraryError ''ValueError'')"
proof (intro conjI)
  show "try_code (stub_chonkie lone_code_document) 2048 no_chunkers (MarkdownCode ''x = 1'' (Some ''foo'') 0)
     = Inl (LibraryError ''unknown language'', no_chunkers)"
    by (simp add: try_code_def construct_and_chunk_def no_chunkers_def stub_chonkie_def)
  show "RecursiveChunker (stub_chonkie lone_code_document) 2048
        (RecursiveRules_class (stub_chonkie lone_code_document)) = Inl (LibraryError ''ValueError'')"
    by (simp add: stub_chonkie_def)
  show "RecursiveChunker (stub_chonkie lone_code_document) 2048
        (RecursiveRules (stub_chonkie lone_code_document)) = Inr (2048, Default_rules)"
    by (simp add: stub_chonkie_def)
  show "parse_markdown (stub_chonkie lone_code_document)
        (''```foo'' @ [CHR 0x0A] @ ''x = 1'' @ [CHR 0x0A] @ ''```'') default_options
     = Inl (LibraryError ''ValueError'')"
    by code_simp
  show "chunk_documents (stub_chonkie lone_code_document) counting_uuid4
        [\<lparr>doc_text = ''```foo'' @ [CHR 0x0A] @ ''x = 1'' @ [CHR 0x0A] @ ''```'', page = Some 1\<rparr>]
        None default_options
     = Inl (LibraryError ''ValueError'')"
    by code_simp
qed

text \<open>
  C3.  With a positive batch size \<open>b\<close> a successful call that counts \<open>t\<close> chunks
  returns \<open>batches\<close> as groups of the chunk stream in order; there are
  \<open>(t + b - 1) div b\<close> of them (the ceiling of \<open>t / b\<close>), every group but the last
  holds exactly \<open>b\<close> chunks, the last holds between 1 and \<open>b\<close>, and
  \<open>total_batches\<close> is the number of groups.
\<close>

theorem batching_exact:
  assumes "0 < b"
    and "chunk_documents lib uuid4 documents (Some b) chunk_options = Inr (bs, tchars, tchunks, tbatches)"
  shows "\<exists>gs. bs = map Batch gs \<and> concat gs = flatten bs
           \<and> int (length gs) = (tchunks + b - 1) div b
           \<and> (\<forall>g \<in> set (butlast gs). int (length g) = b)
           \<and> (gs = [] \<or> (1 \<le> length (last gs) \<and> int (length (last gs)) \<le> b))
           \<and> tbatches = int (length gs)"
proof -
  from chunk_documents_grouped [OF assms] have
    wg: "well_grouped b bs" and tb: "tbatches = int (length bs)" and
    tc: "tchunks = int (length (flatten bs))"
    by simp_all
  from well_grouped_groups [OF wg] obtain gs where
    gs: "bs = map Batch gs" "concat gs = flatten bs"
    "\<forall>g \<in> set (butlast gs). int (length g) = b"
    "gs = [] \<or> (1 \<le> length (last gs) \<and> int (length (last gs)) \<le> b)"
    by blast
  have len: "length gs = length bs" by (simp add: gs(1))
  from well_grouped_count [OF assms(1) wg] tc len
  have "int (length gs) = (tchunks + b - 1) div b" by simp
  moreover have "tbatches = int (length gs)" using tb len by simp
  ultimately show ?thesis using gs by blast
qed

theorem batching_exact_witness:
  "(0::int) < 2
   \<and> chunk_documents (stub_chonkie mixed_document) counting_uuid4 single_document (Some 2) english_options =
     Inr ([Batch [example_chunk 0 ''# Title'' None, example_chunk 1 ''Some text'' None],
           Batch [example_chunk 2 ''| a | b |'' None, example_chunk 3 ''x = 1'' None],
           Batch [example_chunk 4 ''y = 2'' None]], 35, 5, 3)
   \<and> (\<exists>gs. [Batch [example_chunk 0 ''# Title'' None, example_chunk 1 ''Some text'' None],
             Batch [example_chunk 2 ''| a | b |'' None, example_chunk 3 ''x = 1'' None],
             Batch [example_chunk 4 ''y = 2'' None]] = map Batch gs
          \<and> concat gs
              = flatten [Batch [example_chunk 0 ''# Title'' None, example_chunk 1 ''Some text'' None],
                  Batch [example_chunk 2 ''| a | b |'' None, example_chunk 3 ''x = 1'' None],
                  Batch [example_chunk 4 ''y = 2'' None]]
          \<and> int (length gs) = (5 + 2 - 1) div 2
          \<and> (\<forall>g \<in> set (butlast gs). int (length g) = 2)
          \<and> (gs = [] \<or> (1 \<le> length (last gs) \<and> int (length (last gs)) \<le> 2))
          \<and> (3::int) = int (length gs))"
proof -
  have pos: "(0::int) < 2" by simp
  have run: "chunk_documents (stub_chonkie mixed_document) counting_uuid4 single_document (Some 2) english_options =
     Inr ([Batch [example_chunk 0 ''# Title'' None, example_chunk 1 ''Some text'' None],
           Batch [example_chunk 2 ''| a | b |'' None, example_chunk 3 ''x = 1'' None],
           Batch [example_chunk 4 ''y = 2'' None]], 35, 5, 3)"
    by code_simp
  show ?thesis
    by (intro conjI) (rule pos, rule run, rule batching_exact [OF pos run])
qed

text \<open>
  C9.  With a positive batch size \<open>b\<close> the groups depend on the chunk stream only: the
  returned \<open>batches\<close> are the stream cut into groups of \<open>b\<close>, whatever the document
  boundaries.  The loop over the documents of \<open>docs1 @ docs2\<close> continues, for
  \<open>docs2\<close>, with the state \<open>docs1\<close> left behind, open group included.  Appending a
  chunk (from whichever document, of whichever page) to a state that satisfies the
  invariant succeeds, keeps the invariant, and adds the chunk to the open group unless
  that group is full (or there is none), in which case it opens a new group.
\<close>

theorem groups_ignore_document_boundaries:
  assumes "0 < b"
  shows "(chunk_documents lib uuid4 documents (Some b) chunk_options = Inr (bs, tchars, tchunks, tbatches)
            \<longrightarrow> bs = map Batch (groups_of (nat b) (flatten bs)))
       \<and> doc_loop lib uuid4 (Some b) chunk_options st0 (docs1 @ docs2) =
            (case doc_loop lib uuid4 (Some b) chunk_options st0 docs1 of
               Inl e \<Rightarrow> Inl e
             | Inr st1 \<Rightarrow> doc_loop lib uuid4 (Some b) chunk_options st1 docs2)
       \<and> (well_grouped b (batches st) \<longrightarrow>
            (\<exists>st'. append_chunk uuid4 (Some b) page_no st chunk = Inr st'
               \<and> well_grouped b (batches st')
               \<and> batches st' =
                   (if batches st = [] \<or> entry_len (last (batches st)) = b
                    then batches st @ [Batch [new_chunk_dict uuid4 page_no st chunk]]
                    else butlast (batches st)
                         @ [Batch (entry_chunks (last (batches st))
                                   @ [new_chunk_dict uuid4 page_no st chunk])])))"
proof (intro conjI impI)
  assume "chunk_documents lib uuid4 documents (Some b) chunk_options = Inr (bs, tchars, tchunks, tbatches)"
  from chunk_documents_grouped [OF assms this] have "well_grouped b bs" by simp
  from well_grouped_groups_of [OF assms this]
  show "bs = map Batch (groups_of (nat b) (flatten bs))" .
next
  show "doc_loop lib uuid4 (Some b) chunk_options st0 (docs1 @ docs2) =
            (case doc_loop lib uuid4 (Some b) chunk_options st0 docs1 of
               Inl e \<Rightarrow> Inl e
             | Inr st1 \<Rightarrow> doc_loop lib uuid4 (Some b) chunk_options st1 docs2)"
    by (rule doc_loop_append)
next
  assume wg: "well_grouped b (batches st)"
  from append_chunk_grouped [OF assms wg, of uuid4 page_no chunk]
  show "\<exists>st'. append_chunk uuid4 (Some b) page_no st chunk = Inr st'
               \<and> well_grouped b (batches st')
               \<and> batches st' =
                   (if batches st = [] \<or> entry_len (last (batches st)) = b
                    then batches st @ [Batch [new_chunk_dict uuid4 page_no st chunk]]
                    else butlast (batches st)
                         @ [Batch (entry_chunks (last (batches st))
                                   @ [new_chunk_dict uuid4 page_no st chunk])])"
    by blast
qed

theorem groups_ignore_document_boundaries_witness:
  "(0::int) < 2
   \<and> chunk_documents (stub_chonkie mixed_document) counting_uuid4 two_pages (Some 2) default_options =
     Inr ([Batch [example_chunk 0 ''# Title. Some text.'' (Some 1), example_chunk 1 ''| a | b |'' (Some 1)],
           Batch [example_chunk 2 ''x = 1. y = 2'' (Some 1), example_chunk 3 ''# Title. Some text.'' (Some 2)],
           Batch [example_chunk 4 ''| a | b |'' (Some 2), example_chunk 5 ''x = 1. y = 2'' (Some 2)]], 80, 6, 3)
   \<and> [Batch [example_chunk 0 ''# Title. Some text.'' (Some 1), example_chunk 1 ''| a | b |'' (Some 1)],
      Batch [example_chunk 2 ''x = 1. y = 2'' (Some 1), example_chunk 3 ''# Title. Some text.'' (Some 2)],
      Batch [example_chunk 4 ''| a | b |'' (Some 2), example_chunk 5 ''x = 1. y = 2'' (Some 2)]]
     = map Batch (groups_of (nat 2)
         (flatten [Batch [example_chunk 0 ''# Title. Some text.'' (Some 1), example_chunk 1 ''| a | b |'' (Some 1)],
           Batch [example_chunk 2 ''x = 1. y = 2'' (Some 1), example_chunk 3 ''# Title. Some text.'' (Some 2)],
           Batch [example_chunk 4 ''| a | b |'' (Some 2), example_chunk 5 ''x = 1. y = 2'' (Some 2)]]))
   \<and> well_grouped 2 (batches initial)
   \<and> (\<exists>st'. append_chunk counting_uuid4 (Some 2) (Some 7) initial
              \<lparr>parsed_text = ''abc'', parsed_sequence_number = 0\<rparr> = Inr st'
            \<and> well_grouped 2 (batches st'))"
proof -
  have pos: "(0::int) < 2" by simp
  have run: "chunk_documents (stub_chonkie mixed_document) counting_uuid4 two_pages (Some 2) default_options =
     Inr ([Batch [example_chunk 0 ''# Title. Some text.'' (Some 1), example_chunk 1 ''| a | b |'' (Some 1)],
           Batch [example_chunk 2 ''x = 1. y = 2'' (Some 1), example_chunk 3 ''# Title. Some text.'' (Some 2)],
           Batch [example_chunk 4 ''| a | b |'' (Some 2), example_chunk 5 ''x = 1. y = 2'' (Some 2)]], 80, 6, 3)"
    by code_simp
  have inv: "well_grouped 2 (batches initial)"
    by (simp add: initial_def well_grouped_def)
  note inst = groups_ignore_document_boundaries [OF pos, of "stub_chonkie mixed_document" counting_uuid4
      two_pages default_options _ 80 6 3 initial "[]" "[]" initial "Some 7"
      "\<lparr>parsed_text = ''abc'', parsed_sequence_number = 0\<rparr>"]
  from inst run inv pos show ?thesis by (intro conjI) fast+
qed

text \<open>
  C10.  Two runs of \<open>chunk_documents\<close> on the same library, documents, batch size and
  options, drawing different identifiers, agree in everything but the \<open>id\<close> fields:
  they fail with the same exception or return the same groups, texts, sequence numbers,
  page numbers and totals.
\<close>

theorem identical_but_ids:
  "erase_ids (chunk_documents lib u1 documents batch_size chunk_options)
     = erase_ids (chunk_documents lib u2 documents batch_size chunk_options)"
proof -
  have "same_but_ids initial initial" by (simp add: same_but_ids_def)
  from doc_loop_same [OF this, of lib u1 batch_size chunk_options documents u2]
  consider e where "doc_loop lib u1 batch_size chunk_options initial documents = Inl e"
      "doc_loop lib u2 batch_size chunk_options initial documents = Inl e"
    | s' t' where "doc_loop lib u1 batch_size chunk_options initial documents = Inr s'"
      "doc_loop lib u2 batch_size chunk_options initial documents = Inr t'" "same_but_ids s' t'"
    by (auto elim: rel_sum.cases)
  then show ?thesis
    by cases (simp_all add: chunk_documents_def erase_ids_def same_but_ids_def)
qed

end
